theory Spec2Isabelle
  imports Main "HOL-Library.Word"
begin

text \<open>
  A model of the Digital Garden blog: the HTTP server of api.js (login and post list),
  the demo API, environment detection and theme handling of demo-mode.js and config.js,
  and the requests the application controller issues. Each function of the source is a
  function here; what a function reads from its surroundings (the clock, local storage,
  the host name, the page) is an argument, and what it changes is part of its result.
\<close>

section \<open>JavaScript strings and values\<close>

text \<open>
  A JavaScript string is a sequence of UTF-16 code units; \<open>length\<close>, \<open>substring\<close>
  and \<open>===\<close> all work on code units. String literals of the source that are plain
  ASCII are written \<open>js ''...''\<close>; a character outside ASCII is given by its code
  units.
\<close>

type_synonym jsstring = "16 word list"

definition js :: "string \<Rightarrow> jsstring" where
  "js s = map (\<lambda>c. of_nat (of_char c)) s"

text \<open>
  The values the program handles: the primitives, arrays and plain objects (an object
  is its list of own properties, in property order). Numbers are the integer-valued
  ones (identifiers, counters and clock readings in milliseconds); IEEE rounding, NaN
  and the infinities are not part of the model.
\<close>

datatype jsvalue =
    JUndefined
  | JNull
  | JBool bool
  | JNum int
  | JStr jsstring
  | JArr "jsvalue list"
  | JObj "(jsstring \<times> jsvalue) list"

datatype js_error = TypeError | SyntaxError

text \<open>
  Reading a property \<open>v.k\<close>, for a name \<open>k\<close> that no built-in prototype defines and
  that is no array index (the program reads \<open>username\<close>, \<open>password\<close>, \<open>id\<close>): on
  \<open>null\<close> and \<open>undefined\<close> the read throws a TypeError, on an object it gives the own
  property or \<open>undefined\<close>, on every other value \<open>undefined\<close>.
\<close>

fun get_prop :: "jsvalue \<Rightarrow> jsstring \<Rightarrow> js_error + jsvalue" where
  "get_prop JUndefined k = Inl TypeError"
| "get_prop JNull k = Inl TypeError"
| "get_prop (JObj ps) k = Inr (case map_of ps k of None \<Rightarrow> JUndefined | Some v \<Rightarrow> v)"
| "get_prop (JBool b) k = Inr JUndefined"
| "get_prop (JNum n) k = Inr JUndefined"
| "get_prop (JStr s) k = Inr JUndefined"
| "get_prop (JArr xs) k = Inr JUndefined"

text \<open>Truthiness, as \<open>||\<close>, \<open>!\<close> and \<open>if\<close> test it.\<close>

fun truthy :: "jsvalue \<Rightarrow> bool" where
  "truthy JUndefined = False"
| "truthy JNull = False"
| "truthy (JBool b) = b"
| "truthy (JNum n) = (n \<noteq> 0)"
| "truthy (JStr s) = (s \<noteq> [])"
| "truthy (JArr xs) = True"
| "truthy (JObj ps) = True"

text \<open>
  Strict equality \<open>a === b\<close>. Primitives are equal when they are the same value, and a
  primitive is never equal to an array or an object: whenever one side is primitive the
  comparison is equality of values. Two arrays or objects are equal when they are the
  same object, which a value does not tell; here they are taken to be two objects, so
  the comparison is exact on a primitive side only, and what is proved of a comparison
  below is stated for a primitive side.
\<close>

fun is_primitive :: "jsvalue \<Rightarrow> bool" where
  "is_primitive (JArr xs) = False"
| "is_primitive (JObj ps) = False"
| "is_primitive v = True"

definition strict_equals :: "jsvalue \<Rightarrow> jsvalue \<Rightarrow> bool" where
  "strict_equals a b = (is_primitive a \<and> a = b)"

text \<open>\<open>s.includes(t)\<close>: \<open>t\<close> occurs in \<open>s\<close> as a contiguous run of code units.\<close>

fun is_prefix :: "jsstring \<Rightarrow> jsstring \<Rightarrow> bool" where
  "is_prefix [] s = True"
| "is_prefix (c # t) [] = False"
| "is_prefix (c # t) (d # s) = (c = d \<and> is_prefix t s)"

fun str_includes :: "jsstring \<Rightarrow> jsstring \<Rightarrow> bool" where
  "str_includes [] t = (t = [])"
| "str_includes (c # s) t = (is_prefix t (c # s) \<or> str_includes s t)"

text \<open>
  \<open>s.substring(a, b)\<close> for non-negative integer arguments: both are clamped to the
  length, swapped when \<open>a > b\<close>, and the code units from the smaller (inclusive) to the
  larger (exclusive) are returned.
\<close>

definition substring :: "jsstring \<Rightarrow> nat \<Rightarrow> nat \<Rightarrow> jsstring" where
  "substring s a b =
     (let a' = min a (length s); b' = min b (length s)
      in take (max a' b' - min a' b') (drop (min a' b') s))"

section \<open>Numbers and dates as text\<close>

definition digit :: "int \<Rightarrow> 16 word" where
  "digit d = of_int (48 + d mod 10)"

function decimal :: "int \<Rightarrow> jsstring" where
  "decimal n = (if n < 10 then [digit n] else decimal (n div 10) @ [digit n])"
  by pat_completeness auto
termination
  by (relation "measure nat") auto

text \<open>\<open>String(n)\<close> for an integer-valued number below \<open>10^21\<close> in magnitude.\<close>

definition number_to_string :: "int \<Rightarrow> jsstring" where
  "number_to_string n = (if n < 0 then js ''-'' @ decimal (- n) else decimal n)"

definition pad2 :: "int \<Rightarrow> jsstring" where
  "pad2 n = [digit (n div 10), digit n]"

definition pad3 :: "int \<Rightarrow> jsstring" where
  "pad3 n = [digit (n div 100), digit (n div 10), digit n]"

definition pad4 :: "int \<Rightarrow> jsstring" where
  "pad4 n = [digit (n div 1000), digit (n div 100), digit (n div 10), digit n]"

definition pad6 :: "int \<Rightarrow> jsstring" where
  "pad6 n = [digit (n div 100000), digit (n div 10000), digit (n div 1000),
             digit (n div 100), digit (n div 10), digit n]"

text \<open>
  The proleptic Gregorian calendar date (year, month, day) of a day number counted from
  1970-01-01, as ECMAScript's \<open>YearFromTime\<close>, \<open>MonthFromTime\<close> and \<open>DateFromTime\<close>
  give it. Days are grouped in 400-year eras starting on 1 March; \<open>div\<close> and \<open>mod\<close> on
  \<open>int\<close> round towards minus infinity, as the calendar needs.
\<close>

definition civil_from_days :: "int \<Rightarrow> int \<times> int \<times> int" where
  "civil_from_days z =
     (let z' = z + 719468;
          era = z' div 146097;
          doe = z' mod 146097;
          yoe = (doe - doe div 1460 + doe div 36524 - doe div 146096) div 365;
          doy = doe - (365 * yoe + yoe div 4 - yoe div 100);
          mp = (5 * doy + 2) div 153;
          d = doy - (153 * mp + 2) div 5 + 1;
          m = (if mp < 10 then mp + 3 else mp - 9);
          y = yoe + era * 400 + (if m \<le> 2 then 1 else 0)
      in (y, m, d))"

text \<open>
  \<open>new Date(t).toISOString()\<close> for a time value \<open>t\<close> in milliseconds since the epoch:
  \<open>YYYY-MM-DDTHH:mm:ss.sssZ\<close>, the year with a sign and six digits outside 0..9999.
  (Every clock reading is a valid time value, within 8.64e15 ms of the epoch, so the
  RangeError of an invalid date does not arise.)
\<close>

definition toISOString :: "int \<Rightarrow> jsstring" where
  "toISOString t =
     (let (y, m, d) = civil_from_days (t div 86400000);
          ms = t mod 86400000;
          year = (if 0 \<le> y \<and> y \<le> 9999 then pad4 y
                  else if y < 0 then js ''-'' @ pad6 (- y)
                  else js ''+'' @ pad6 y)
      in year @ js ''-'' @ pad2 m @ js ''-'' @ pad2 d @ js ''T''
         @ pad2 (ms div 3600000) @ js '':'' @ pad2 (ms div 60000 mod 60) @ js '':''
         @ pad2 (ms div 1000 mod 60) @ js ''.'' @ pad3 (ms mod 1000) @ js ''Z'')"

text \<open>\<open>s.split('T')[0]\<close>: the part of \<open>s\<close> before its first \<open>T\<close>.\<close>

definition before_T :: "jsstring \<Rightarrow> jsstring" where
  "before_T s = takeWhile (\<lambda>c. c \<noteq> 84) s"

section \<open>The platform: JSON and local storage\<close>

text \<open>
  \<open>JSON.parse\<close> and \<open>JSON.stringify\<close> belong to the platform, not to the repository;
  the program is modelled over any pair of them. \<open>JSON_parse\<close> gives \<open>None\<close> where
  \<open>JSON.parse\<close> throws a SyntaxError. \<open>JSON_stringify v\<close> is the text that reaches the
  consumer of \<open>JSON.stringify(v)\<close>.
\<close>

record json_lib =
  JSON_parse :: "jsstring \<Rightarrow> jsvalue option"
  JSON_stringify :: "jsvalue \<Rightarrow> jsstring"

text \<open>
  \<open>localStorage\<close>: string keys to string values. \<open>getItem\<close> of a missing key is \<open>null\<close>
  (here \<open>None\<close>). The storage is taken to have room: \<open>setItem\<close> always stores, the
  quota of a browser is not modelled.
\<close>

type_synonym storage = "jsstring \<rightharpoonup> jsstring"

definition getItem :: "storage \<Rightarrow> jsstring \<Rightarrow> jsstring option" where
  "getItem ls k = ls k"

definition setItem :: "storage \<Rightarrow> jsstring \<Rightarrow> jsstring \<Rightarrow> storage" where
  "setItem ls k v = ls(k \<mapsto> v)"

definition removeItem :: "storage \<Rightarrow> jsstring \<Rightarrow> storage" where
  "removeItem ls k = ls(k := None)"

section \<open>The HTTP server (basic authentication server)\<close>

text \<open>
  A request as the handler sees it: the method, the URL (path and query, as Node gives
  it in \<open>req.url\<close>) and the chunks of the body, each already decoded to a string by
  \<open>chunk.toString()\<close>.
\<close>

record request =
  req_method :: jsstring
  req_url :: jsstring
  req_chunks :: "jsstring list"

text \<open>
  A response as the handler writes it: the status, the headers in the order they were
  set, and the body handed to \<open>res.end\<close>. A body written by
  \<open>res.end(JSON.stringify(v))\<close> is recorded as \<open>Some v\<close>, the value whose JSON text is
  handed over; \<open>res.end()\<close> with no argument is \<open>None\<close>. What the HTTP layer of the
  platform transmits of it is not part of the record.
\<close>

record response =
  res_status :: nat
  res_headers :: "(jsstring \<times> jsstring) list"
  res_body :: "jsvalue option"

definition cors_headers :: "(jsstring \<times> jsstring) list" where
  "cors_headers =
     [(js ''Access-Control-Allow-Origin'', js ''*''),
      (js ''Access-Control-Allow-Methods'', js ''GET, POST, OPTIONS''),
      (js ''Access-Control-Allow-Headers'', js ''Content-Type, Authorization'')]"

text \<open>
  \<open>res.writeHead(st, {'Content-Type': 'application/json'}); res.end(JSON.stringify(v))\<close>,
  after the three \<open>setHeader\<close> calls every request starts with.
\<close>

definition send_json :: "nat \<Rightarrow> jsvalue \<Rightarrow> response" where
  "send_json st v =
     \<lparr>res_status = st,
      res_headers = cors_headers @ [(js ''Content-Type'', js ''application/json'')],
      res_body = Some v\<rparr>"

definition login_success :: jsvalue where
  "login_success =
     JObj [(js ''success'', JBool True),
           (js ''message'', JStr (js ''Login successful!'')),
           (js ''token'', JStr (js ''fake-jwt-token-12345'')),
           (js ''user'',
              JObj [(js ''id'', JStr (js ''1'')),
                    (js ''username'', JStr (js ''admin'')),
                    (js ''email'', JStr (js ''admin@blog.com'')),
                    (js ''role'', JStr (js ''admin''))])]"

definition invalid_credentials :: jsvalue where
  "invalid_credentials =
     JObj [(js ''success'', JBool False), (js ''message'', JStr (js ''Invalid credentials''))]"

definition invalid_json :: jsvalue where
  "invalid_json =
     JObj [(js ''success'', JBool False), (js ''message'', JStr (js ''Invalid JSON''))]"

text \<open>
  The body of the \<open>try\<close> block of the login branch: \<open>JSON.parse(body)\<close>, then
  \<open>data.username\<close> (read for the log line and again for the test), then, only when the
  user name matched, \<open>data.password\<close>. \<open>Inl\<close> is an exception, which the \<open>catch\<close>
  answers; \<open>Inr ok\<close> is the outcome of the credential test.
\<close>

definition check_login :: "json_lib \<Rightarrow> jsstring \<Rightarrow> js_error + bool" where
  "check_login J text =
     (case JSON_parse J text of
        None \<Rightarrow> Inl SyntaxError
      | Some data \<Rightarrow>
          (case get_prop data (js ''username'') of
             Inl e \<Rightarrow> Inl e
           | Inr u \<Rightarrow>
               if strict_equals u (JStr (js ''admin''))
               then (case get_prop data (js ''password'') of
                       Inl e \<Rightarrow> Inl e
                     | Inr p \<Rightarrow> Inr (strict_equals p (JStr (js ''admin123''))))
               else Inr False))"

text \<open>
  The two static post records. Their \<open>date\<close> fields are computed at each request:
  \<open>new Date().toISOString()\<close> from one clock reading \<open>t1\<close>, and
  \<open>new Date(Date.now() - 86400000).toISOString()\<close> from a second reading \<open>t2\<close>.
\<close>

definition server_posts :: "int \<Rightarrow> int \<Rightarrow> jsvalue list" where
  "server_posts t1 t2 =
     [JObj [(js ''id'', JNum 1),
            (js ''title'', JStr (js ''Welcome to Digital Garden'')),
            (js ''content'', JStr (js ''This is your first post! Start writing amazing content.'')),
            (js ''excerpt'', JStr (js ''Welcome to your new digital garden where ideas bloom.'')),
            (js ''author'', JStr (js ''Admin'')),
            (js ''date'', JStr (toISOString t1)),
            (js ''tags'', JArr [JStr (js ''welcome''), JStr (js ''first-post'')]),
            (js ''published'', JBool True)],
      JObj [(js ''id'', JNum 2),
            (js ''title'', JStr (js ''Getting Started with Blogging'')),
            (js ''content'', JStr (js ''Here are some tips to get started with your blog...'')),
            (js ''excerpt'', JStr (js ''Essential tips for new bloggers to create engaging content.'')),
            (js ''author'', JStr (js ''Admin'')),
            (js ''date'', JStr (toISOString (t2 - 86400000))),
            (js ''tags'', JArr [JStr (js ''blogging''), JStr (js ''tips'')]),
            (js ''published'', JBool True)]]"

definition service_descriptor :: jsvalue where
  "service_descriptor =
     JObj [(js ''message'', JStr (js ''Digital Garden Blog API Server'')),
           (js ''version'', JStr (js ''1.0.0'')),
           (js ''endpoints'',
              JObj [(js ''POST /api/auth/login'', JStr (js ''User authentication'')),
                    (js ''GET /api/posts'', JStr (js ''Fetch blog posts''))]),
           (js ''status'', JStr (js ''running''))]"

text \<open>
  The request handler given to \<open>http.createServer\<close>. \<open>t1\<close> and \<open>t2\<close> are the clock
  readings the posts branch takes. In the login branch the body is the concatenation of
  the chunks, and the response is written when the request ends.
\<close>

definition request_handler :: "json_lib \<Rightarrow> int \<Rightarrow> int \<Rightarrow> request \<Rightarrow> response" where
  "request_handler J t1 t2 req =
     (if req_method req = js ''OPTIONS'' then
        \<lparr>res_status = 200, res_headers = cors_headers, res_body = None\<rparr>
      else if req_method req = js ''POST'' \<and> req_url req = js ''/api/auth/login'' then
        (case check_login J (concat (req_chunks req)) of
           Inr True \<Rightarrow> send_json 200 login_success
         | Inr False \<Rightarrow> send_json 400 invalid_credentials
         | Inl e \<Rightarrow> send_json 400 invalid_json)
      else if req_method req = js ''GET'' \<and> req_url req = js ''/api/posts'' then
        send_json 200
          (JObj [(js ''success'', JBool True), (js ''posts'', JArr (server_posts t1 t2))])
      else send_json 200 service_descriptor)"

section \<open>Demo mode\<close>

definition mockUser :: jsvalue where
  "mockUser =
     JObj [(js ''id'', JNum 1),
           (js ''username'', JStr (js ''admin'')),
           (js ''email'', JStr (js ''admin@digitalgarden.com'')),
           (js ''name'', JStr (js ''Demo Admin''))]"

text \<open>
  The three mock posts. The titles end in an emoji (two code units each), and the
  contents of the second and third hold line feeds (10) and bullets (U+2022).
\<close>

definition mockPosts :: jsvalue where
  "mockPosts =
     JArr
      [JObj [(js ''id'', JNum 1),
             (js ''title'', JStr (js ''Welcome to Digital Garden '' @ [0xD83C, 0xDF31])),
             (js ''content'', JStr (js (''This is a demo post showing how the blog looks with content. ''
                @ ''In a full deployment, this would be connected to a MongoDB database ''
                @ ''with real user authentication.''))),
             (js ''author'', JStr (js ''Demo Admin'')),
             (js ''date'', JStr (js ''2025-09-18'')),
             (js ''tags'', JArr [JStr (js ''welcome''), JStr (js ''demo'')]),
             (js ''excerpt'', JStr (js ''Welcome to our beautiful digital garden blog...''))],
       JObj [(js ''id'', JNum 2),
             (js ''title'', JStr (js ''Features of This Blog '' @ [0xD83D, 0xDCDD])),
             (js ''content'', JStr (js ''This blog includes:'' @ [10, 10]
                @ [0x2022] @ js '' Beautiful responsive design'' @ [10]
                @ [0x2022] @ js '' Dark/Light theme toggle'' @ [10]
                @ [0x2022] @ js '' User authentication (demo mode)'' @ [10]
                @ [0x2022] @ js '' MongoDB integration (when backend is running)'' @ [10]
                @ [0x2022] @ js '' Modern UI with animations'' @ [10]
                @ [0x2022] @ js '' Mobile-friendly layout'')),
             (js ''author'', JStr (js ''Demo Admin'')),
             (js ''date'', JStr (js ''2025-09-17'')),
             (js ''tags'', JArr [JStr (js ''features''), JStr (js ''design'')]),
             (js ''excerpt'', JStr (js ''Explore all the amazing features built into this blog...''))],
       JObj [(js ''id'', JNum 3),
             (js ''title'', JStr (js ''How to Deploy with Backend '' @ [0xD83D, 0xDE80])),
             (js ''content'', JStr (js ''To get full functionality:'' @ [10, 10]
                @ js (''1. Deploy the Node.js backend to a service like Heroku, ''
                      @ ''Railway, or Vercel'') @ [10]
                @ js ''2. Set up MongoDB Atlas database'' @ [10]
                @ js ''3. Update the API_BASE_URL in config.js'' @ [10]
                @ js ''4. Deploy frontend to Netlify/Vercel'' @ [10, 10]
                @ js ''For now, enjoy this static demo!'')),
             (js ''author'', JStr (js ''Demo Admin'')),
             (js ''date'', JStr (js ''2025-09-16'')),
             (js ''tags'', JArr [JStr (js ''deployment''), JStr (js ''guide'')]),
             (js ''excerpt'', JStr (js ''Learn how to deploy the full-stack version...''))]]"

text \<open>
  A \<open>DemoAPI\<close> instance: its two fields. The posts field holds whatever the constructor
  found, so it is a value, not a list by type.
\<close>

record demo_api =
  isLoggedIn :: bool
  posts :: jsvalue

text \<open>
  Every method below arms a timer and does its work in the timer's callback. The model
  of a method is that callback, run on the instance and the storage as they are when the
  timer fires, and it returns what the promise resolves with, the instance and the
  storage. \<open>Inl e\<close> means that the callback (or the constructor) threw \<open>e\<close>: the promise
  is never settled, and instance and storage are as before, since every throwing
  statement comes before the first assignment.
\<close>

definition savePostsToStorage :: "json_lib \<Rightarrow> demo_api \<Rightarrow> storage \<Rightarrow> storage" where
  "savePostsToStorage J api ls = setItem ls (js ''demo_posts'') (JSON_stringify J (posts api))"

text \<open>
  The constructor. \<open>JSON.parse\<close> turns its argument into a string first, so a missing
  key (\<open>null\<close>) is parsed as the text \<open>null\<close>.
\<close>

definition DemoAPI_constructor :: "json_lib \<Rightarrow> storage \<Rightarrow> js_error + (demo_api \<times> storage)" where
  "DemoAPI_constructor J ls =
     (case JSON_parse J (case getItem ls (js ''demo_posts'') of None \<Rightarrow> js ''null'' | Some s \<Rightarrow> s) of
        None \<Rightarrow> Inl SyntaxError
      | Some v \<Rightarrow>
          (let api = \<lparr>isLoggedIn = (getItem ls (js ''demo_logged_in'') = Some (js ''true'')),
                      posts = (if truthy v then v else mockPosts)\<rparr>
           in Inr (api, savePostsToStorage J api ls)))"

definition login :: "json_lib \<Rightarrow> int \<Rightarrow> demo_api \<Rightarrow> storage \<Rightarrow> jsvalue \<Rightarrow> jsvalue
    \<Rightarrow> jsvalue \<times> demo_api \<times> storage" where
  "login J now api ls username password =
     (if strict_equals username (JStr (js ''admin'')) \<and> strict_equals password (JStr (js ''admin123''))
      then (JObj [(js ''success'', JBool True),
                  (js ''token'', JStr (js ''demo_token_'' @ number_to_string now)),
                  (js ''user'', mockUser)],
            api\<lparr>isLoggedIn := True\<rparr>,
            setItem (setItem ls (js ''demo_logged_in'') (js ''true''))
              (js ''demo_user'') (JSON_stringify J mockUser))
      else (JObj [(js ''success'', JBool False),
                  (js ''message'', JStr (js ''Invalid credentials. Try admin/admin123''))],
            api, ls))"

definition logout :: "demo_api \<Rightarrow> storage \<Rightarrow> jsvalue \<times> demo_api \<times> storage" where
  "logout api ls =
     (JObj [(js ''success'', JBool True)],
      api\<lparr>isLoggedIn := False\<rparr>,
      removeItem (removeItem ls (js ''demo_logged_in'')) (js ''demo_user''))"

definition getPosts :: "demo_api \<Rightarrow> jsvalue" where
  "getPosts api = JObj [(js ''success'', JBool True), (js ''posts'', posts api)]"

definition not_authenticated :: jsvalue where
  "not_authenticated =
     JObj [(js ''success'', JBool False), (js ''message'', JStr (js ''Not authenticated''))]"

text \<open>
  The record \<open>createPost\<close> builds. \<open>t_id\<close> is the clock reading of \<open>Date.now()\<close>,
  \<open>t_date\<close> that of \<open>new Date()\<close>; \<open>c\<close> is the content, a string.
\<close>

definition newPost :: "int \<Rightarrow> int \<Rightarrow> jsvalue \<Rightarrow> jsstring \<Rightarrow> jsvalue \<Rightarrow> jsvalue" where
  "newPost t_id t_date title c tags =
     JObj [(js ''id'', JNum t_id),
           (js ''title'', title),
           (js ''content'', JStr c),
           (js ''author'', JStr (js ''Demo Admin'')),
           (js ''date'', JStr (before_T (toISOString t_date))),
           (js ''tags'', tags),
           (js ''excerpt'', JStr (substring c 0 100 @ js ''...''))]"

text \<open>
  \<open>createPost(title, content, tags = [])\<close>. \<open>content.substring\<close> throws a TypeError
  unless the content is a string, and \<open>this.posts.unshift\<close> throws one unless the posts
  field is an array.
\<close>

definition createPost :: "json_lib \<Rightarrow> int \<Rightarrow> int \<Rightarrow> demo_api \<Rightarrow> storage
    \<Rightarrow> jsvalue \<Rightarrow> jsvalue \<Rightarrow> jsvalue \<Rightarrow> js_error + (jsvalue \<times> demo_api \<times> storage)" where
  "createPost J t_id t_date api ls title content tags =
     (if \<not> isLoggedIn api then Inr (not_authenticated, api, ls)
      else
        (case content of
           JStr c \<Rightarrow>
             (let p = newPost t_id t_date title c (if tags = JUndefined then JArr [] else tags)
              in (case posts api of
                    JArr ps \<Rightarrow>
                      (let api' = api\<lparr>posts := JArr (p # ps)\<rparr>
                       in Inr (JObj [(js ''success'', JBool True),
                                     (js ''post'', p),
                                     (js ''message'', JStr (js ''Post created successfully (demo mode)''))],
                               api', savePostsToStorage J api' ls))
                  | _ \<Rightarrow> Inl TypeError))
         | _ \<Rightarrow> Inl TypeError))"

text \<open>
  \<open>this.posts.filter(post => post.id !== postId)\<close> on the elements of an array: the
  callback reads \<open>post.id\<close>, which throws on a \<open>null\<close> element.
\<close>

fun filter_posts :: "jsvalue list \<Rightarrow> jsvalue \<Rightarrow> js_error + jsvalue list" where
  "filter_posts [] postId = Inr []"
| "filter_posts (p # ps) postId =
     (case get_prop p (js ''id'') of
        Inl e \<Rightarrow> Inl e
      | Inr i \<Rightarrow>
          (case filter_posts ps postId of
             Inl e \<Rightarrow> Inl e
           | Inr r \<Rightarrow> Inr (if \<not> strict_equals i postId then p # r else r)))"

definition deletePost :: "json_lib \<Rightarrow> demo_api \<Rightarrow> storage \<Rightarrow> jsvalue
    \<Rightarrow> js_error + (jsvalue \<times> demo_api \<times> storage)" where
  "deletePost J api ls postId =
     (if \<not> isLoggedIn api then Inr (not_authenticated, api, ls)
      else
        (case posts api of
           JArr ps \<Rightarrow>
             (case filter_posts ps postId of
                Inl e \<Rightarrow> Inl e
              | Inr ps' \<Rightarrow>
                  (let api' = api\<lparr>posts := JArr ps'\<rparr>
                   in Inr (JObj [(js ''success'', JBool True),
                                 (js ''message'', JStr (js ''Post deleted successfully (demo mode)''))],
                           api', savePostsToStorage J api' ls)))
         | _ \<Rightarrow> Inl TypeError))"

section \<open>Environment detection\<close>

text \<open>\<open>getEnvironment\<close> of config.js, on \<open>location.hostname\<close>.\<close>

definition getEnvironment :: "jsstring \<Rightarrow> jsstring" where
  "getEnvironment hostname =
     (if hostname = js ''localhost'' \<or> hostname = js ''127.0.0.1'' then js ''development''
      else if str_includes hostname (js ''netlify.app'') \<or> str_includes hostname (js ''netlify.com'')
      then js ''netlify''
      else js ''production'')"

definition CONFIG :: "(jsstring \<times> jsvalue) list" where
  "CONFIG =
     [(js ''development'',
         JObj [(js ''API_BASE_URL'', JStr (js ''http://127.0.0.1:9090/api'')),
               (js ''APP_NAME'', JStr (js ''Digital Garden Blog (Dev)'')),
               (js ''DEBUG'', JBool True)]),
      (js ''production'',
         JObj [(js ''API_BASE_URL'', JStr (js ''https://your-backend-api.com/api'')),
               (js ''APP_NAME'', JStr (js ''Digital Garden Blog'')),
               (js ''DEBUG'', JBool False)]),
      (js ''netlify'',
         JObj [(js ''API_BASE_URL'', JStr (js ''/api'')),
               (js ''APP_NAME'', JStr (js ''Digital Garden Blog (Demo)'')),
               (js ''DEBUG'', JBool False),
               (js ''DEMO_MODE'', JBool True)])]"

definition getConfig :: "jsstring \<Rightarrow> jsvalue" where
  "getConfig hostname =
     (case map_of CONFIG (getEnvironment hostname) of None \<Rightarrow> JUndefined | Some c \<Rightarrow> c)"

text \<open>\<open>isStaticDeployment\<close> of demo-mode.js, on \<open>window.location.hostname\<close>.\<close>

definition isStaticDeployment :: "jsstring \<Rightarrow> bool" where
  "isStaticDeployment hostname =
     (let isLocal = (str_includes hostname (js ''localhost'')
                     \<or> str_includes hostname (js ''127.0.0.1'') \<or> hostname = [])
      in \<not> isLocal)"

text \<open>
  What the scripts leave on \<open>window\<close> once the page has loaded: the host name they ran
  on, \<open>APP_CONFIG\<close>, and \<open>demoAPI\<close>, which demo-mode.js sets only on static hosting.
\<close>

record environment =
  hostname :: jsstring
  APP_CONFIG :: jsvalue
  demoAPI :: "demo_api option"

definition load_scripts :: "json_lib \<Rightarrow> jsstring \<Rightarrow> storage \<Rightarrow> js_error + (environment \<times> storage)" where
  "load_scripts J h ls =
     (if isStaticDeployment h then
        (case DemoAPI_constructor J ls of
           Inl e \<Rightarrow> Inl e
         | Inr (api, ls') \<Rightarrow>
             Inr (\<lparr>hostname = h, APP_CONFIG = getConfig h, demoAPI = Some api\<rparr>, ls'))
      else Inr (\<lparr>hostname = h, APP_CONFIG = getConfig h, demoAPI = None\<rparr>, ls))"

section \<open>The application controller\<close>

text \<open>
  A request the controller issues: a \<open>fetch\<close> with its HTTP method and URL, or a call of
  a method of the demo API.
\<close>

datatype api_call =
    Fetch jsstring jsstring
  | DemoCall jsstring

fun is_demo_call :: "api_call \<Rightarrow> bool" where
  "is_demo_call (DemoCall m) = True"
| "is_demo_call (Fetch m u) = False"

text \<open>
  The request each request-issuing function of the controller makes, in the environment
  it runs in. \<open>postId\<close> is the identifier as the template string renders it.
\<close>

definition verifyAuthToken_request :: "environment \<Rightarrow> api_call" where
  "verifyAuthToken_request env = Fetch (js ''GET'') (js ''/api/auth/verify'')"

definition loadPosts_request :: "environment \<Rightarrow> api_call" where
  "loadPosts_request env = Fetch (js ''GET'') (js ''http://127.0.0.1:9090/api/posts'')"

definition login_request :: "environment \<Rightarrow> api_call" where
  "login_request env = Fetch (js ''POST'') (js ''http://127.0.0.1:9090/api/auth/login'')"

definition createPost_request :: "environment \<Rightarrow> api_call" where
  "createPost_request env = Fetch (js ''POST'') (js ''/api/posts'')"

definition updatePost_request :: "environment \<Rightarrow> jsstring \<Rightarrow> api_call" where
  "updatePost_request env postId = Fetch (js ''PUT'') (js ''/api/posts/'' @ postId)"

definition deletePost_request :: "environment \<Rightarrow> jsstring \<Rightarrow> api_call" where
  "deletePost_request env postId = Fetch (js ''DELETE'') (js ''/api/posts/'' @ postId)"

text \<open>
  The part of the page the theme code touches: whether the element \<open>themeToggle\<close>
  exists, the \<open>data-theme\<close> attribute of the root element (\<open>None\<close> when absent), and the
  class name of the icon inside the toggle (\<open>None\<close> when there is no icon).
\<close>

record page =
  has_themeToggle :: bool
  data_theme :: "jsstring option"
  icon_className :: "jsstring option"

text \<open>\<open>x || 'light'\<close> for a string or \<open>null\<close>: the empty string is falsy as well.\<close>

definition or_light :: "jsstring option \<Rightarrow> jsstring" where
  "or_light x = (case x of None \<Rightarrow> js ''light'' | Some t \<Rightarrow> if t = [] then js ''light'' else t)"

definition theme_icon :: "jsstring \<Rightarrow> jsstring" where
  "theme_icon theme = (if theme = js ''dark'' then js ''fas fa-sun'' else js ''fas fa-moon'')"

text \<open>
  The theme part of \<open>bindEvents\<close>, which runs at start-up: inside \<open>if (themeToggle)\<close>
  it loads the saved theme and applies it.
\<close>

definition bindEvents_theme :: "page \<Rightarrow> storage \<Rightarrow> page" where
  "bindEvents_theme pg ls =
     (if has_themeToggle pg then
        (let savedTheme = or_light (getItem ls (js ''theme''))
         in pg\<lparr>data_theme := Some savedTheme,
                icon_className := map_option (\<lambda>_. theme_icon savedTheme) (icon_className pg)\<rparr>)
      else pg)"

text \<open>
  The click listener of the theme toggle. It is registered only when the element exists;
  without it a click cannot happen and nothing changes.
\<close>

definition themeToggle_click :: "page \<Rightarrow> storage \<Rightarrow> page \<times> storage" where
  "themeToggle_click pg ls =
     (if has_themeToggle pg then
        (let currentTheme = or_light (data_theme pg);
             newTheme = (if currentTheme = js ''dark'' then js ''light'' else js ''dark'')
         in (pg\<lparr>data_theme := Some newTheme,
                 icon_className := map_option (\<lambda>_. theme_icon newTheme) (icon_className pg)\<rparr>,
             setItem ls (js ''theme'') newTheme))
      else (pg, ls))"

section \<open>A reference JSON implementation\<close>

text \<open>
  One instance of the platform's JSON functions, written out so that the program can be
  run on concrete inputs: \<open>JSON.stringify\<close> and \<open>JSON.parse\<close> as ECMAScript defines
  them, on the values of \<open>jsvalue\<close>. Numbers being integers here, a number token with a
  fraction or an exponent is refused, and the reordering of integer-like property names
  is left out. The theorems about the program hold for every \<open>json_lib\<close>; this one
  serves as the concrete instance.
\<close>

definition hex_digit :: "16 word \<Rightarrow> 16 word" where
  "hex_digit d = (if d < 10 then 48 + d else 87 + d)"

definition unicode_escape :: "16 word \<Rightarrow> jsstring" where
  "unicode_escape c =
     [92, 117, hex_digit (c div 4096), hex_digit (c div 256 mod 16),
      hex_digit (c div 16 mod 16), hex_digit (c mod 16)]"

definition is_high_surrogate :: "16 word \<Rightarrow> bool" where
  "is_high_surrogate c = (0xD800 \<le> c \<and> c \<le> 0xDBFF)"

definition is_low_surrogate :: "16 word \<Rightarrow> bool" where
  "is_low_surrogate c = (0xDC00 \<le> c \<and> c \<le> 0xDFFF)"

fun quote_units :: "jsstring \<Rightarrow> jsstring" where
  "quote_units [] = []"
| "quote_units [c] =
     (if c = 34 then [92, 34] else if c = 92 then [92, 92]
      else if c = 8 then [92, 98] else if c = 12 then [92, 102]
      else if c = 10 then [92, 110] else if c = 13 then [92, 114]
      else if c = 9 then [92, 116]
      else if c < 32 \<or> is_high_surrogate c \<or> is_low_surrogate c then unicode_escape c
      else [c])"
| "quote_units (c # d # cs) =
     (if is_high_surrogate c \<and> is_low_surrogate d then c # d # quote_units cs
      else quote_units [c] @ quote_units (d # cs))"

definition quote :: "jsstring \<Rightarrow> jsstring" where
  "quote s = [34] @ quote_units s @ [34]"

fun join_comma :: "jsstring list \<Rightarrow> jsstring" where
  "join_comma [] = []"
| "join_comma [x] = x"
| "join_comma (x # y # ys) = x @ [44] @ join_comma (y # ys)"

fun ref_stringify :: "jsvalue \<Rightarrow> jsstring" where
  "ref_stringify JUndefined = js ''undefined''"
| "ref_stringify JNull = js ''null''"
| "ref_stringify (JBool b) = (if b then js ''true'' else js ''false'')"
| "ref_stringify (JNum n) = number_to_string n"
| "ref_stringify (JStr s) = quote s"
| "ref_stringify (JArr xs) =
     [91] @ join_comma (map (\<lambda>x. if x = JUndefined then js ''null'' else ref_stringify x) xs) @ [93]"
| "ref_stringify (JObj ps) =
     [123] @ join_comma (map (\<lambda>(k, v). quote k @ [58] @ ref_stringify v)
                           (filter (\<lambda>(k, v). v \<noteq> JUndefined) ps)) @ [125]"

definition is_ws :: "16 word \<Rightarrow> bool" where
  "is_ws c = (c = 32 \<or> c = 9 \<or> c = 10 \<or> c = 13)"

definition skip_ws :: "jsstring \<Rightarrow> jsstring" where
  "skip_ws s = dropWhile is_ws s"

definition hex_value :: "16 word \<Rightarrow> 16 word option" where
  "hex_value c =
     (if 48 \<le> c \<and> c \<le> 57 then Some (c - 48)
      else if 97 \<le> c \<and> c \<le> 102 then Some (c - 87)
      else if 65 \<le> c \<and> c \<le> 70 then Some (c - 55)
      else None)"

definition simple_escape :: "16 word \<Rightarrow> 16 word option" where
  "simple_escape e =
     (if e = 34 then Some 34 else if e = 92 then Some 92 else if e = 47 then Some 47
      else if e = 98 then Some 8 else if e = 102 then Some 12 else if e = 110 then Some 10
      else if e = 114 then Some 13 else if e = 116 then Some 9 else None)"

definition cons_result :: "16 word \<Rightarrow> (jsstring \<times> jsstring) option \<Rightarrow> (jsstring \<times> jsstring) option" where
  "cons_result u r = (case r of None \<Rightarrow> None | Some (s, rest) \<Rightarrow> Some (u # s, rest))"

fun parse_chars :: "jsstring \<Rightarrow> (jsstring \<times> jsstring) option" where
  "parse_chars [] = None"
| "parse_chars (c # cs) =
     (if c = 34 then Some ([], cs)
      else if c = 92 then
        (case cs of
           [] \<Rightarrow> None
         | e # es \<Rightarrow>
             if e = 117 then
               (case es of
                  a # b # c' # d # r \<Rightarrow>
                    (case (hex_value a, hex_value b, hex_value c', hex_value d) of
                       (Some x, Some y, Some z, Some w) \<Rightarrow>
                         cons_result (x * 4096 + y * 256 + z * 16 + w) (parse_chars r)
                     | _ \<Rightarrow> None)
                | _ \<Rightarrow> None)
             else (case simple_escape e of
                     None \<Rightarrow> None
                   | Some u \<Rightarrow> cons_result u (parse_chars es)))
      else if c < 32 then None
      else cons_result c (parse_chars cs))"

definition is_digit :: "16 word \<Rightarrow> bool" where
  "is_digit c = (48 \<le> c \<and> c \<le> 57)"

fun digits_value :: "int \<Rightarrow> jsstring \<Rightarrow> int" where
  "digits_value acc [] = acc"
| "digits_value acc (c # cs) = digits_value (acc * 10 + (uint c - 48)) cs"

text \<open>
  The digits of an integer token at the start of a text: a single \<open>0\<close>, or a run of
  digits that does not start with \<open>0\<close>.
\<close>

definition number_digits :: "jsstring \<Rightarrow> jsstring" where
  "number_digits s = (if s \<noteq> [] \<and> hd s = 48 then [48] else takeWhile is_digit s)"

definition int_token :: "jsstring \<Rightarrow> (int \<times> jsstring) option" where
  "int_token s =
     (if number_digits s = [] then None
      else if drop (length (number_digits s)) s \<noteq> []
              \<and> (hd (drop (length (number_digits s)) s) = 46
                  \<or> hd (drop (length (number_digits s)) s) = 101
                  \<or> hd (drop (length (number_digits s)) s) = 69)
      then None
      else Some (digits_value 0 (number_digits s), drop (length (number_digits s)) s))"

definition parse_number :: "jsstring \<Rightarrow> (jsvalue \<times> jsstring) option" where
  "parse_number s =
     (if s \<noteq> [] \<and> hd s = 45
      then (case int_token (tl s) of None \<Rightarrow> None | Some (n, r) \<Rightarrow> Some (JNum (- n), r))
      else (case int_token s of None \<Rightarrow> None | Some (n, r) \<Rightarrow> Some (JNum n, r)))"

fun add_member :: "(jsstring \<times> jsvalue) list \<Rightarrow> jsstring \<times> jsvalue \<Rightarrow> (jsstring \<times> jsvalue) list" where
  "add_member [] kv = [kv]"
| "add_member ((k', v') # ps) kv =
     (if k' = fst kv then (k', snd kv) # ps else (k', v') # add_member ps kv)"

fun parse_value :: "nat \<Rightarrow> jsstring \<Rightarrow> (jsvalue \<times> jsstring) option"
  and parse_elements :: "nat \<Rightarrow> jsstring \<Rightarrow> (jsvalue list \<times> jsstring) option"
  and parse_members :: "nat \<Rightarrow> jsstring \<Rightarrow> ((jsstring \<times> jsvalue) list \<times> jsstring) option"
where
  "parse_value 0 s = None"
| "parse_value (Suc n) s =
     (let t = skip_ws s in
      if is_prefix (js ''null'') t then Some (JNull, drop 4 t)
      else if is_prefix (js ''true'') t then Some (JBool True, drop 4 t)
      else if is_prefix (js ''false'') t then Some (JBool False, drop 5 t)
      else if is_prefix [34] t then
        (case parse_chars (tl t) of None \<Rightarrow> None | Some (k, r) \<Rightarrow> Some (JStr k, r))
      else if is_prefix [91] t then
        (if is_prefix [93] (skip_ws (tl t)) then Some (JArr [], tl (skip_ws (tl t)))
         else (case parse_elements n (tl t) of
                 None \<Rightarrow> None
               | Some (vs, r) \<Rightarrow> Some (JArr vs, r)))
      else if is_prefix [123] t then
        (if is_prefix [125] (skip_ws (tl t)) then Some (JObj [], tl (skip_ws (tl t)))
         else (case parse_members n (tl t) of
                 None \<Rightarrow> None
               | Some (ms, r) \<Rightarrow> Some (JObj (foldl add_member [] ms), r)))
      else parse_number t)"
| "parse_elements 0 s = None"
| "parse_elements (Suc n) s =
     (case parse_value n s of
        None \<Rightarrow> None
      | Some (v, r) \<Rightarrow>
          (let t = skip_ws r in
           if is_prefix [44] t then
             (case parse_elements n (tl t) of
                None \<Rightarrow> None
              | Some (vs, r') \<Rightarrow> Some (v # vs, r'))
           else if is_prefix [93] t then Some ([v], tl t)
           else None))"
| "parse_members 0 s = None"
| "parse_members (Suc n) s =
     (let t = skip_ws s in
      if is_prefix [34] t then
        (case parse_chars (tl t) of
           None \<Rightarrow> None
         | Some (k, r) \<Rightarrow>
             (let t1 = skip_ws r in
              if is_prefix [58] t1 then
                (case parse_value n (tl t1) of
                   None \<Rightarrow> None
                 | Some (v, r') \<Rightarrow>
                     (let t2 = skip_ws r' in
                      if is_prefix [44] t2 then
                        (case parse_members n (tl t2) of
                           None \<Rightarrow> None
                         | Some (ms, r'') \<Rightarrow> Some ((k, v) # ms, r''))
                      else if is_prefix [125] t2 then Some ([(k, v)], tl t2)
                      else None))
              else None))
      else None)"

definition ref_parse :: "jsstring \<Rightarrow> jsvalue option" where
  "ref_parse s =
     (case parse_value (Suc (length s)) s of
        None \<Rightarrow> None
      | Some (v, r) \<Rightarrow> if skip_ws r = [] then Some v else None)"

definition ref_JSON :: json_lib where
  "ref_JSON = \<lparr>JSON_parse = ref_parse, JSON_stringify = ref_stringify\<rparr>"

section \<open>Notions used to state the properties\<close>

text \<open>
  The stored text under \<open>demo_posts\<close> is the serialization of the posts field of the
  instance.
\<close>

definition in_sync :: "json_lib \<Rightarrow> demo_api \<Rightarrow> storage \<Rightarrow> bool" where
  "in_sync J api ls = (getItem ls (js ''demo_posts'') = Some (JSON_stringify J (posts api)))"

text \<open>The \<open>id\<close> of a post record (\<open>undefined\<close> where the read would throw).\<close>

definition id_of :: "jsvalue \<Rightarrow> jsvalue" where
  "id_of p = (case get_prop p (js ''id'') of Inl e \<Rightarrow> JUndefined | Inr v \<Rightarrow> v)"

text \<open>A record with one property left out.\<close>

fun without_prop :: "jsstring \<Rightarrow> jsvalue \<Rightarrow> jsvalue" where
  "without_prop k (JObj ps) = JObj (filter (\<lambda>kv. fst kv \<noteq> k) ps)"
| "without_prop k v = v"

text \<open>
  The values that JSON represents as they are: no \<open>undefined\<close> anywhere inside, and no
  property name twice in an object.
\<close>

fun jsonable :: "jsvalue \<Rightarrow> bool" where
  "jsonable JUndefined = False"
| "jsonable JNull = True"
| "jsonable (JBool b) = True"
| "jsonable (JNum n) = True"
| "jsonable (JStr s) = True"
| "jsonable (JArr xs) = list_all jsonable xs"
| "jsonable (JObj ps) = (distinct (map fst ps) \<and> list_all (\<lambda>kv. jsonable (snd kv)) ps)"

text \<open>
  What may follow a value in a JSON text: nothing, a comma, or a closing bracket or
  brace.
\<close>

definition ends_value :: "jsstring \<Rightarrow> bool" where
  "ends_value r = (r = [] \<or> hd r = 44 \<or> hd r = 93 \<or> hd r = 125)"

text \<open>
  A session on one instance: the calls made on it, in order, each with its arguments and
  the clock readings it takes. A call that throws leaves instance and storage as they
  are; \<open>getPosts\<close> changes nothing.
\<close>

datatype demo_op =
    Login int jsvalue jsvalue
  | Logout
  | GetPosts
  | CreatePost int int jsvalue jsvalue jsvalue
  | DeletePost jsvalue

fun call :: "json_lib \<Rightarrow> demo_op \<Rightarrow> demo_api \<times> storage \<Rightarrow> demo_api \<times> storage" where
  "call J (Login now username password) (api, ls) = snd (login J now api ls username password)"
| "call J Logout (api, ls) = snd (logout api ls)"
| "call J GetPosts (api, ls) = (api, ls)"
| "call J (CreatePost t_id t_date title content tags) (api, ls) =
     (case createPost J t_id t_date api ls title content tags of
        Inl e \<Rightarrow> (api, ls)
      | Inr (r, s) \<Rightarrow> s)"
| "call J (DeletePost postId) (api, ls) =
     (case deletePost J api ls postId of
        Inl e \<Rightarrow> (api, ls)
      | Inr (r, s) \<Rightarrow> s)"

definition session :: "json_lib \<Rightarrow> demo_op list \<Rightarrow> demo_api \<times> storage \<Rightarrow> demo_api \<times> storage" where
  "session J ops s = foldl (\<lambda>s' c. call J c s') s ops"

text \<open>The posts field is a list of records: an array with no \<open>null\<close> or \<open>undefined\<close> in it.\<close>

definition posts_are_records :: "demo_api \<Rightarrow> bool" where
  "posts_are_records api =
     (case posts api of JArr ps \<Rightarrow> JNull \<notin> set ps \<and> JUndefined \<notin> set ps | _ \<Rightarrow> False)"

section \<open>The reference JSON functions give a value back\<close>

text \<open>
  \<open>JSON.parse(JSON.stringify(v))\<close> is \<open>v\<close> again for every value JSON represents as it
  is. This is the platform fact the reload of the demo API rests on; it is proved here
  for the reference implementation: first for numbers, then for strings with their
  escapes, then for values by induction, with enough fuel for the parser.
\<close>

subsection \<open>Numbers\<close>

declare decimal.simps [simp del]


lemma uint_digit: "uint (digit n) = 48 + n mod 10"
proof -
  have "0 \<le> n mod 10" "n mod 10 < 10"
    by simp_all
  then have m: "(48 + n mod 10) mod 65536 = 48 + n mod 10"
    by simp
  have "uint (word_of_int (48 + n mod 10) :: 16 word) = (48 + n mod 10) mod 2 ^ LENGTH(16)"
    by (rule uint_word_of_int)
  also have "\<dots> = 48 + n mod 10"
    using m by simp
  finally show ?thesis
    by (simp only: digit_def)
qed

lemma is_digit_digit: "is_digit (digit n)"
  using uint_digit [of n] by (simp add: is_digit_def word_le_def)

lemma decimal_digits: "list_all is_digit (decimal n)"
  by (induction n rule: decimal.induct) (subst decimal.simps, simp add: is_digit_digit)

lemma decimal_nonempty: "decimal n \<noteq> []"
  by (subst decimal.simps) simp

lemma hd_decimal_nonzero: "0 < n \<Longrightarrow> hd (decimal n) \<noteq> 48"
proof (induction n rule: decimal.induct)
  case (1 n)
  show ?case
  proof (cases "n < 10")
    case True
    with 1 have "uint (digit n) \<noteq> uint (48 :: 16 word)"
      by (simp add: uint_digit)
    then have "digit n \<noteq> 48"
      by auto
    with True show ?thesis
      by (subst decimal.simps) simp
  next
    case False
    then have "0 < n div 10"
      by simp
    with 1 False have "hd (decimal (n div 10)) \<noteq> 48"
      by simp
    with False show ?thesis
      by (subst decimal.simps) (simp add: decimal_nonempty)
  qed
qed

lemma digits_value_snoc:
  "digits_value a (xs @ [d]) = digits_value a xs * 10 + (uint d - 48)"
  by (induction xs arbitrary: a) simp_all

lemma digits_value_decimal: "0 \<le> n \<Longrightarrow> digits_value 0 (decimal n) = n"
proof (induction n rule: decimal.induct)
  case (1 n)
  show ?case
  proof (cases "n < 10")
    case True
    with 1 show ?thesis
      by (subst decimal.simps) (simp add: uint_digit)
  next
    case False
    with 1 have "digits_value 0 (decimal (n div 10)) = n div 10"
      by simp
    with False show ?thesis
      by (subst decimal.simps) (simp add: digits_value_snoc uint_digit)
  qed
qed

lemma ends_value_not_number:
  assumes "ends_value r"
  shows "(r \<noteq> [] \<and> (hd r = 46 \<or> hd r = 101 \<or> hd r = 69)) = False"
  using assms by (auto simp: ends_value_def)

lemma takeWhile_digits:
  assumes "ends_value r" and "list_all is_digit ds"
  shows "takeWhile is_digit (ds @ r) = ds"
proof -
  have "takeWhile is_digit r = []"
    using assms(1) by (cases r) (auto simp: ends_value_def is_digit_def)
  moreover have "\<And>x. x \<in> set ds \<Longrightarrow> is_digit x"
    using assms(2) by (simp add: list_all_iff)
  ultimately show ?thesis
    by (simp add: takeWhile_append2)
qed

lemma number_digits_append:
  assumes "ends_value r" and "list_all is_digit ds" and "ds \<noteq> []"
    and "hd ds \<noteq> 48 \<or> ds = [48]"
  shows "number_digits (ds @ r) = ds"
  using assms(3,4) takeWhile_digits [OF assms(1,2)]
  by (auto simp: number_digits_def)

lemma int_token_digits:
  assumes "ends_value r" and "list_all is_digit ds" and "ds \<noteq> []"
    and "hd ds \<noteq> 48 \<or> ds = [48]"
  shows "int_token (ds @ r) = Some (digits_value 0 ds, r)"
  unfolding int_token_def number_digits_append [OF assms]
  using assms(3) by (simp add: ends_value_not_number [OF assms(1)])

lemma hd_decimal_start: "hd (decimal n) \<noteq> 48 \<or> decimal n = [48]" if "0 \<le> n"
proof (cases "n = 0")
  case True
  then have "decimal n = [48]"
    by (subst decimal.simps) (simp add: digit_def)
  then show ?thesis by simp
next
  case False
  with that have "0 < n" by simp
  then show ?thesis
    by (simp add: hd_decimal_nonzero)
qed

lemma hd_decimal_not_minus: "hd (decimal n) \<noteq> 45"
proof -
  have "is_digit (hd (decimal n))"
    using decimal_digits [of n] decimal_nonempty [of n] by (cases "decimal n") simp_all
  then show ?thesis
    by (auto simp: is_digit_def)
qed

lemma int_token_decimal:
  assumes "ends_value r" and "0 \<le> n"
  shows "int_token (decimal n @ r) = Some (n, r)"
  using int_token_digits [OF assms(1) decimal_digits decimal_nonempty hd_decimal_start [OF assms(2)]]
    digits_value_decimal [OF assms(2)]
  by simp

lemma parse_number_to_string:
  assumes "ends_value r"
  shows "parse_number (number_to_string n @ r) = Some (JNum n, r)"
proof (cases "n < 0")
  case False
  then have "int_token (decimal n @ r) = Some (n, r)"
    using int_token_decimal [OF assms, of n] by simp
  with False show ?thesis
    using hd_decimal_not_minus [of n] decimal_nonempty [of n]
    by (simp add: number_to_string_def parse_number_def)
next
  case True
  then have "int_token (decimal (- n) @ r) = Some (- n, r)"
    using int_token_decimal [OF assms, of "- n"] by simp
  with True show ?thesis
    by (simp add: number_to_string_def parse_number_def js_def)
qed

subsection \<open>Strings\<close>

lemma hex_value_hex_digit: "d < 16 \<Longrightarrow> hex_value (hex_digit d) = Some d"
  unfolding hex_value_def hex_digit_def
  by (auto simp: word_less_nat_alt word_le_nat_alt unat_word_ariths) 

lemma unat_16_bound: "unat (c :: 16 word) < 65536"
proof -
  have "unat c < 2 ^ LENGTH(16)"
    by (rule unsigned_less)
  then show ?thesis by simp
qed

lemma hex_parts_lt:
  fixes c :: "16 word"
  shows "c div 4096 < 16" "c div 256 mod 16 < 16" "c div 16 mod 16 < 16" "c mod 16 < 16"
  using unat_16_bound [of c]
  by (simp_all add: word_less_nat_alt unat_div unat_mod) 

lemma nat_recompose:
  "(n::nat) div 4096 * 4096 + n div 256 mod 16 * 256 + n div 16 mod 16 * 16 + n mod 16 = n"
proof -
  have a: "n mod 256 = 16 * (n div 16 mod 16) + n mod 16"
    using mod_mult2_eq [of n 16 16] by simp
  have b: "n mod 4096 = 256 * (n div 256 mod 16) + n mod 256"
    using mod_mult2_eq [of n 256 16] by simp
  have c: "n = 4096 * (n div 4096) + n mod 4096"
    by simp
  from a b c show ?thesis by linarith
qed


lemma hex_recompose:
  fixes c :: "16 word"
  shows "(c div 4096) * 4096 + (c div 256 mod 16) * 256 + (c div 16 mod 16) * 16 + c mod 16 = c"
proof -
  define n where "n = unat c"
  have n: "n < 65536"
    unfolding n_def by (rule unat_16_bound)
  have r: "n div 4096 * 4096 + n div 256 mod 16 * 256 + n div 16 mod 16 * 16 + n mod 16 = n"
    by (rule nat_recompose)
  have b1: "n div 4096 * 4096 < 65536"
    using r n by linarith
  have b2: "n div 4096 * 4096 + n div 256 mod 16 * 256 < 65536"
    using r n by linarith
  have b3: "n div 4096 * 4096 + n div 256 mod 16 * 256 + n div 16 mod 16 * 16 < 65536"
    using r n by linarith
  have b0: "n div 4096 < 65536" "n div 256 < 65536" "n div 16 < 65536"
    using n by simp_all
  have "unat ((c div 4096) * 4096 + (c div 256 mod 16) * 256 + (c div 16 mod 16) * 16 + c mod 16)
        = unat c"
    using n r b0 b1 b2 b3
    by (simp add: unat_word_ariths unat_div unat_mod n_def [symmetric])
  then show ?thesis
    by (simp add: word_unat_eq_iff)
qed

lemma parse_unicode_escape:
  "parse_chars (unicode_escape c @ tail) = cons_result c (parse_chars tail)"
proof -
  have ne: "(92 :: 16 word) \<noteq> 34" "\<not> (92 :: 16 word) < 32"
    by simp_all
  show ?thesis
    using hex_parts_lt [of c] hex_recompose [of c]
    by (simp add: unicode_escape_def hex_value_hex_digit)
qed


lemma parse_quote_single:
  "parse_chars (quote_units [c] @ tail) = cons_result c (parse_chars tail)"
  by (simp add: parse_unicode_escape simple_escape_def)

lemma surrogate_plain:
  assumes "is_high_surrogate c \<or> is_low_surrogate c"
  shows "c \<noteq> 34" "c \<noteq> 92" "\<not> c < 32"
  using assms
  by (auto simp: is_high_surrogate_def is_low_surrogate_def word_le_nat_alt word_less_nat_alt)

lemma parse_surrogate_pair:
  assumes "is_high_surrogate c" and "is_low_surrogate d"
  shows "parse_chars (c # d # tail) = cons_result c (cons_result d (parse_chars tail))"
  using surrogate_plain [of c] surrogate_plain [of d] assms by simp

lemma cons_result_Some: "cons_result u (Some (s, r)) = Some (u # s, r)"
  by (simp add: cons_result_def)

lemma parse_quote_units: "parse_chars (quote_units s @ 34 # rest) = Some (s, rest)"
proof (induction s rule: quote_units.induct)
  case 1
  show ?case by simp
next
  case (2 c)
  have "parse_chars (quote_units [c] @ 34 # rest) = cons_result c (parse_chars (34 # rest))"
    by (rule parse_quote_single)
  then show ?case
    by (simp add: cons_result_Some)
next
  case (3 c d cs)
  show ?case
  proof (cases "is_high_surrogate c \<and> is_low_surrogate d")
    case True
    then have "quote_units (c # d # cs) @ 34 # rest = c # d # (quote_units cs @ 34 # rest)"
      by simp
    moreover have "parse_chars (c # d # (quote_units cs @ 34 # rest))
          = cons_result c (cons_result d (parse_chars (quote_units cs @ 34 # rest)))"
      using True by (intro parse_surrogate_pair) simp_all
    moreover have "parse_chars (quote_units cs @ 34 # rest) = Some (cs, rest)"
      using True 3 by simp
    ultimately show ?thesis
      by (simp only: cons_result_Some)
  next
    case False
    then have q: "quote_units (c # d # cs) = quote_units [c] @ quote_units (d # cs)"
      by (simp only: quote_units.simps(3) if_False)
    have "parse_chars (quote_units [c] @ (quote_units (d # cs) @ 34 # rest))
          = cons_result c (parse_chars (quote_units (d # cs) @ 34 # rest))"
      by (rule parse_quote_single)
    moreover have "parse_chars (quote_units (d # cs) @ 34 # rest) = Some (d # cs, rest)"
      using False 3 by simp
    ultimately show ?thesis
      by (simp only: q append_assoc cons_result_Some)
  qed
qed

subsection \<open>Values\<close>

lemma skip_ws_start: "\<not> is_ws c \<Longrightarrow> skip_ws (c # s) = c # s"
  by (simp add: skip_ws_def)

lemma skip_ws_ends_value: "ends_value r \<Longrightarrow> skip_ws r = r"
  by (cases r) (auto simp: ends_value_def skip_ws_def is_ws_def)

lemma parse_value_null: "parse_value (Suc m) (js ''null'' @ r) = Some (JNull, r)"
  by (simp add: js_def skip_ws_def is_ws_def)

lemma parse_value_true: "parse_value (Suc m) (js ''true'' @ r) = Some (JBool True, r)"
  by (simp add: js_def skip_ws_def is_ws_def)

lemma parse_value_false: "parse_value (Suc m) (js ''false'' @ r) = Some (JBool False, r)"
  by (simp add: js_def skip_ws_def is_ws_def)

lemma parse_value_string:
  "parse_value (Suc m) (34 # s)
   = (case parse_chars s of None \<Rightarrow> None | Some (k, r) \<Rightarrow> Some (JStr k, r))"
  by (simp add: js_def skip_ws_def is_ws_def)

lemma parse_value_array:
  "parse_value (Suc m) (91 # s)
   = (if is_prefix [93] (skip_ws s) then Some (JArr [], tl (skip_ws s))
      else (case parse_elements m s of None \<Rightarrow> None | Some (vs, r) \<Rightarrow> Some (JArr vs, r)))"
  by (simp add: js_def skip_ws_def is_ws_def)

lemma parse_value_object:
  "parse_value (Suc m) (123 # s)
   = (if is_prefix [125] (skip_ws s) then Some (JObj [], tl (skip_ws s))
      else (case parse_members m s of
              None \<Rightarrow> None
            | Some (ms, r) \<Rightarrow> Some (JObj (foldl add_member [] ms), r)))"
  by (simp add: js_def skip_ws_def is_ws_def)

lemma parse_value_number:
  assumes "c = 45 \<or> is_digit c"
  shows "parse_value (Suc m) (c # s) = parse_number (c # s)"
proof -
  have "\<not> is_ws c" "c \<noteq> 110" "c \<noteq> 116" "c \<noteq> 102" "c \<noteq> 34" "c \<noteq> 91" "c \<noteq> 123"
    using assms by (auto simp: is_digit_def is_ws_def)
  then show ?thesis
    by (simp add: js_def skip_ws_def)
qed

declare parse_value.simps [simp del]

lemma hd_decimal_digit: "is_digit (hd (decimal n))"
  using decimal_digits [of n] decimal_nonempty [of n]
  by (cases "decimal n") simp_all

lemma number_to_string_start:
  "\<exists>c cs. number_to_string n = c # cs \<and> (c = 45 \<or> is_digit c)"
proof (cases "n < 0")
  case True
  then show ?thesis
    by (simp add: number_to_string_def js_def)
next
  case False
  obtain c cs where d: "decimal n = c # cs"
    using decimal_nonempty [of n] by (cases "decimal n") auto
  with hd_decimal_digit [of n] have "is_digit c"
    by simp
  with False d show ?thesis
    by (simp add: number_to_string_def)
qed

lemma stringify_start:
  assumes "jsonable v"
  shows "\<exists>c cs. ref_stringify v = c # cs \<and> \<not> is_ws c \<and> c \<noteq> 93 \<and> c \<noteq> 125"
proof (cases v)
  case (JNum n)
  obtain c cs where d: "number_to_string n = c # cs" and c: "c = 45 \<or> is_digit c"
    using number_to_string_start [of n] by auto
  from c have "\<not> is_ws c \<and> c \<noteq> 93 \<and> c \<noteq> 125"
    by (auto simp: is_digit_def is_ws_def)
  with JNum d show ?thesis
    by simp
qed (use assms in \<open>auto simp: js_def is_ws_def quote_def\<close>)

lemma add_member_fresh:
  "fst kv \<notin> fst ` set acc \<Longrightarrow> add_member acc kv = acc @ [kv]"
  by (induction acc) auto

lemma foldl_add_member:
  "distinct (map fst (acc @ ps)) \<Longrightarrow> foldl add_member acc ps = acc @ ps"
proof (induction ps arbitrary: acc)
  case Nil
  then show ?case by simp
next
  case (Cons p ps)
  then have "fst p \<notin> fst ` set acc"
    by auto
  then have "add_member acc p = acc @ [p]"
    by (rule add_member_fresh)
  with Cons show ?case
    by simp
qed

lemma parse_elements_list:
  assumes "\<And>x n r. x \<in> set xs \<Longrightarrow> size x < n \<Longrightarrow> ends_value r
             \<Longrightarrow> parse_value n (ref_stringify x @ r) = Some (x, r)"
    and "xs \<noteq> []" and "size_list size xs < n"
  shows "parse_elements n (join_comma (map ref_stringify xs) @ 93 # r) = Some (xs, r)"
  using assms
proof (induction xs arbitrary: n)
  case Nil
  then show ?case by simp
next
  case (Cons x xs)
  from Cons.prems(3) obtain m where n: "n = Suc m"
    by (cases n) auto
  with Cons.prems(3) have sx: "size x < m" and sxs: "size_list size xs < m"
    by simp_all
  show ?case
  proof (cases xs)
    case Nil
    have ev: "ends_value (93 # r)"
      by (simp add: ends_value_def)
    have "parse_value m (ref_stringify x @ 93 # r) = Some (x, 93 # r)"
      using Cons.prems(1) [OF _ sx ev] by simp
    with Nil n show ?thesis
      by (simp add: skip_ws_def is_ws_def)
  next
    case (Cons y ys)
    let ?tail = "join_comma (map ref_stringify xs) @ 93 # r"
    have ev: "ends_value (44 # ?tail)"
      by (simp add: ends_value_def)
    have a: "parse_value m (ref_stringify x @ 44 # ?tail) = Some (x, 44 # ?tail)"
      using Cons.prems(1) [OF _ sx ev] by simp
    have b: "parse_elements m ?tail = Some (xs, r)"
      using Cons.IH [OF _ _ sxs] Cons.prems(1) Cons by simp
    have "join_comma (map ref_stringify (x # xs)) @ 93 # r = ref_stringify x @ 44 # ?tail"
      using Cons by simp
    with a b n show ?thesis
      by (simp add: skip_ws_def is_ws_def)
  qed
qed

declare parse_elements.simps [simp del] parse_members.simps [simp del]

lemma join_comma_Cons:
  "join_comma (s # ss) = s @ (if ss = [] then [] else 44 # join_comma ss)"
  by (cases ss) simp_all

lemma parse_members_step:
  "parse_members (Suc m) (quote k @ 58 # s)
   = (case parse_value m s of
        None \<Rightarrow> None
      | Some (v, r') \<Rightarrow>
          if is_prefix [44] (skip_ws r') then
            (case parse_members m (tl (skip_ws r')) of
               None \<Rightarrow> None
             | Some (ms, r'') \<Rightarrow> Some ((k, v) # ms, r''))
          else if is_prefix [125] (skip_ws r') then Some ([(k, v)], tl (skip_ws r'))
          else None)"
proof -
  have "parse_chars (quote_units k @ 34 # 58 # s) = Some (k, 58 # s)"
    by (rule parse_quote_units)
  then show ?thesis
    by (simp add: parse_members.simps quote_def skip_ws_def is_ws_def Let_def
        split: option.splits)
qed

lemma parse_members_list:
  assumes "\<And>k v n r. (k, v) \<in> set ps \<Longrightarrow> size v < n \<Longrightarrow> ends_value r
             \<Longrightarrow> parse_value n (ref_stringify v @ r) = Some (v, r)"
    and "ps \<noteq> []" and "size_list (size_prod (\<lambda>x. 0) size) ps < n"
  shows "parse_members n
           (join_comma (map (\<lambda>(k, v). quote k @ [58] @ ref_stringify v) ps) @ 125 # r)
         = Some (ps, r)"
  using assms
proof (induction ps arbitrary: n)
  case Nil
  then show ?case by simp
next
  case (Cons p ps)
  note IH = Cons.IH and prems = Cons.prems
  obtain k v where p: "p = (k, v)"
    by (cases p)
  from prems(3) obtain m where n: "n = Suc m"
    by (cases n) auto
  with prems(3) p have sv: "size v < m"
    and sps: "size_list (size_prod (\<lambda>x. 0) size) ps < m"
    by simp_all
  let ?member = "\<lambda>(k, v). quote k @ [58] @ ref_stringify v"
  show ?case
  proof (cases ps)
    case Nil
    have ev: "ends_value (125 # r)"
      by (simp add: ends_value_def)
    have "parse_value m (ref_stringify v @ 125 # r) = Some (v, 125 # r)"
      using prems(1) [of k v, OF _ sv ev] p by simp
    with Nil n p show ?thesis
      using parse_members_step [of m k "ref_stringify v @ 125 # r"]
      by (simp add: skip_ws_def is_ws_def)
  next
    case (Cons q qs)
    let ?tail = "join_comma (map ?member ps) @ 125 # r"
    have ev: "ends_value (44 # ?tail)"
      by (simp add: ends_value_def)
    have a: "parse_value m (ref_stringify v @ 44 # ?tail) = Some (v, 44 # ?tail)"
      using prems(1) [of k v, OF _ sv ev] p by simp
    have b: "parse_members m ?tail = Some (ps, r)"
    proof (rule IH)
      fix k' v' n' r'
      assume "(k', v') \<in> set ps" and "size v' < n'" and "ends_value r'"
      then show "parse_value n' (ref_stringify v' @ r') = Some (v', r')"
        using prems(1) [of k' v' n' r'] by simp
    next
      show "ps \<noteq> []" using Cons by simp
      show "size_list (size_prod (\<lambda>x. 0) size) ps < m" by (rule sps)
    qed
    have "join_comma (map ?member (p # ps)) @ 125 # r
          = quote k @ 58 # (ref_stringify v @ 44 # ?tail)"
      using Cons p by simp
    with a b n p show ?thesis
      using parse_members_step [of m k "ref_stringify v @ 44 # ?tail"]
      by (simp add: skip_ws_def is_ws_def)
  qed
qed

lemma jsonable_elements_text:
  "list_all jsonable xs
   \<Longrightarrow> map (\<lambda>x. if x = JUndefined then js ''null'' else ref_stringify x) xs = map ref_stringify xs"
  by (induction xs) auto

lemma jsonable_members_text:
  "list_all (\<lambda>kv. jsonable (snd kv)) ps \<Longrightarrow> filter (\<lambda>(k, v). v \<noteq> JUndefined) ps = ps"
  by (induction ps) auto

lemma parse_value_stringify:
  "jsonable v \<Longrightarrow> size v < n \<Longrightarrow> ends_value r
   \<Longrightarrow> parse_value n (ref_stringify v @ r) = Some (v, r)"
proof (induction v arbitrary: n r)
  case JUndefined
  then show ?case by simp
next
  case JNull
  then obtain m where "n = Suc m" by (cases n) auto
  then show ?case
    using parse_value_null [of m r] by simp
next
  case (JBool b)
  then obtain m where "n = Suc m" by (cases n) auto
  then show ?case
    using parse_value_true [of m r] parse_value_false [of m r] by (cases b) simp_all
next
  case (JNum k)
  then obtain m where n: "n = Suc m" by (cases n) auto
  obtain c cs where d: "number_to_string k = c # cs" and c: "c = 45 \<or> is_digit c"
    using number_to_string_start [of k] by auto
  have "parse_value (Suc m) (c # cs @ r) = parse_number (c # cs @ r)"
    using c by (rule parse_value_number)
  also have "\<dots> = parse_number (number_to_string k @ r)"
    using d by simp
  also have "\<dots> = Some (JNum k, r)"
    using JNum.prems(3) by (rule parse_number_to_string)
  finally show ?case
    using n d by simp
next
  case (JStr s)
  then obtain m where n: "n = Suc m" by (cases n) auto
  have "parse_chars (quote_units s @ 34 # r) = Some (s, r)"
    by (rule parse_quote_units)
  with n show ?case
    using parse_value_string [of m "quote_units s @ 34 # r"] by (simp add: quote_def)
next
  case (JArr xs)
  then obtain m where n: "n = Suc m" by (cases n) auto
  show ?case
  proof (cases xs)
    case Nil
    with n show ?thesis
      using parse_value_array [of m "93 # r"] by (simp add: skip_ws_def is_ws_def)
  next
    case (Cons y ys)
    have js: "list_all jsonable xs"
      using JArr.prems(1) by simp
    have tx: "ref_stringify (JArr xs) @ r = 91 # (join_comma (map ref_stringify xs) @ 93 # r)"
      unfolding ref_stringify.simps jsonable_elements_text [OF js] by simp
    have "jsonable y"
      using js Cons by simp
    then obtain c cs where st: "ref_stringify y = c # cs" and c: "\<not> is_ws c" "c \<noteq> 93"
      using stringify_start [of y] by auto
    have "join_comma (map ref_stringify xs) @ 93 # r
          = c # (cs @ (if ys = [] then [] else 44 # join_comma (map ref_stringify ys)) @ 93 # r)"
      using Cons st by (simp add: join_comma_Cons)
    then have np: "\<not> is_prefix [93] (skip_ws (join_comma (map ref_stringify xs) @ 93 # r))"
      using c by (simp add: skip_ws_start)
    have sz: "size_list size xs < m"
      using JArr.prems(2) n by simp
    have el: "parse_elements m (join_comma (map ref_stringify xs) @ 93 # r) = Some (xs, r)"
    proof (rule parse_elements_list)
      fix x n' r'
      assume "x \<in> set xs" and "size x < n'" and "ends_value r'"
      moreover from this js have "jsonable x"
        by (simp add: list_all_iff)
      ultimately show "parse_value n' (ref_stringify x @ r') = Some (x, r')"
        using JArr.IH by blast
    next
      show "xs \<noteq> []" using Cons by simp
      show "size_list size xs < m" by (rule sz)
    qed
    show ?thesis
      unfolding tx n
      using np el parse_value_array [of m "join_comma (map ref_stringify xs) @ 93 # r"]
      by simp
  qed
next
  case (JObj ps)
  then obtain m where n: "n = Suc m" by (cases n) auto
  let ?member = "\<lambda>(k, v). quote k @ [58] @ ref_stringify v"
  show ?case
  proof (cases ps)
    case Nil
    with n show ?thesis
      using parse_value_object [of m "125 # r"] by (simp add: skip_ws_def is_ws_def)
  next
    case (Cons q qs)
    have js: "list_all (\<lambda>kv. jsonable (snd kv)) ps" and dist: "distinct (map fst ps)"
      using JObj.prems(1) by simp_all
    have tx: "ref_stringify (JObj ps) @ r = 123 # (join_comma (map ?member ps) @ 125 # r)"
      unfolding ref_stringify.simps jsonable_members_text [OF js] by simp
    obtain k v where q: "q = (k, v)"
      by (cases q)
    have "join_comma (map ?member ps) @ 125 # r
          = 34 # (quote_units k @ [34] @ [58] @ ref_stringify v
                  @ (if qs = [] then [] else 44 # join_comma (map ?member qs)) @ 125 # r)"
      using Cons q by (simp add: join_comma_Cons quote_def)
    then have np: "\<not> is_prefix [125] (skip_ws (join_comma (map ?member ps) @ 125 # r))"
      by (simp add: skip_ws_def is_ws_def)
    have sz: "size_list (size_prod (\<lambda>x. 0) size) ps < m"
      using JObj.prems(2) n by simp
    have el: "parse_members m (join_comma (map ?member ps) @ 125 # r) = Some (ps, r)"
    proof (rule parse_members_list)
      fix k' v' n' r'
      assume "(k', v') \<in> set ps" and "size v' < n'" and "ends_value r'"
      moreover from this js have "jsonable v'"
        by (auto simp: list_all_iff)
      moreover have "v' \<in> Basic_BNFs.snds (k', v')"
        by simp
      ultimately show "parse_value n' (ref_stringify v' @ r') = Some (v', r')"
        using JObj.IH by blast
    next
      show "ps \<noteq> []" using Cons by simp
      show "size_list (size_prod (\<lambda>x. 0) size) ps < m" by (rule sz)
    qed
    have fm: "foldl add_member [] ps = ps"
      using foldl_add_member [of "[]" ps] dist by simp
    show ?thesis
      unfolding tx n
      using np el fm parse_value_object [of m "join_comma (map ?member ps) @ 125 # r"]
      by simp
  qed
qed

lemma join_comma_length:
  "(\<And>x. x \<in> set xs \<Longrightarrow> f x < length (g x))
   \<Longrightarrow> size_list f xs \<le> length (join_comma (map g xs))"
proof (induction xs)
  case Nil
  then show ?case by simp
next
  case (Cons x xs)
  have "f x < length (g x)"
    using Cons.prems by simp
  moreover have "size_list f xs \<le> length (join_comma (map g xs))"
    using Cons by simp
  ultimately show ?case
    by (simp add: join_comma_Cons)
qed

lemma size_less_text: "jsonable v \<Longrightarrow> size v < length (ref_stringify v)"
proof (induction v)
  case (JNum n)
  obtain c cs where "number_to_string n = c # cs"
    using number_to_string_start [of n] by auto
  then show ?case by simp
next
  case (JArr xs)
  have js: "list_all jsonable xs"
    using JArr.prems by simp
  have "size_list size xs \<le> length (join_comma (map ref_stringify xs))"
  proof (rule join_comma_length)
    fix x assume "x \<in> set xs"
    with js JArr.IH show "size x < length (ref_stringify x)"
      by (simp add: list_all_iff)
  qed
  then show ?case
    unfolding ref_stringify.simps jsonable_elements_text [OF js] by simp
next
  case (JObj ps)
  let ?member = "\<lambda>(k, v). quote k @ [58] @ ref_stringify v"
  have js: "list_all (\<lambda>kv. jsonable (snd kv)) ps"
    using JObj.prems by simp
  have "size_list (size_prod (\<lambda>x. 0) size) ps \<le> length (join_comma (map ?member ps))"
  proof (rule join_comma_length)
    fix p assume p: "p \<in> set ps"
    obtain k v where kv: "p = (k, v)"
      by (cases p)
    with p js have "jsonable v"
      by (auto simp: list_all_iff)
    moreover have "v \<in> Basic_BNFs.snds p"
      using kv by simp
    ultimately have "size v < length (ref_stringify v)"
      using JObj.IH p by blast
    with kv show "size_prod (\<lambda>x. 0) size p < length (?member p)"
      by (simp add: quote_def)
  qed
  then show ?case
    unfolding ref_stringify.simps jsonable_members_text [OF js] by simp
qed (simp_all add: js_def quote_def)

lemma ref_JSON_round_trip:
  assumes "jsonable v"
  shows "JSON_parse ref_JSON (JSON_stringify ref_JSON v) = Some v"
proof -
  have "size v < Suc (length (ref_stringify v))"
    using size_less_text [OF assms] by simp
  moreover have "ends_value []"
    by (simp add: ends_value_def)
  ultimately have "parse_value (Suc (length (ref_stringify v))) (ref_stringify v @ []) = Some (v, [])"
    using assms by (intro parse_value_stringify)
  then show ?thesis
    by (simp add: ref_JSON_def ref_parse_def skip_ws_def)
qed

section \<open>Properties of the HTTP server\<close>

lemma check_login_Inr_True:
  "check_login J text = Inr True \<longleftrightarrow>
     (\<exists>data. JSON_parse J text = Some data
        \<and> get_prop data (js ''username'') = Inr (JStr (js ''admin''))
        \<and> get_prop data (js ''password'') = Inr (JStr (js ''admin123'')))"
  by (auto simp: check_login_def strict_equals_def split: option.splits sum.splits if_splits)

text \<open>
  Claim C1. A login succeeds exactly with the credentials \<open>admin\<close> / \<open>admin123\<close>, on the
  server and in demo mode alike. For the server the credentials are the \<open>username\<close> and
  \<open>password\<close> properties of the parsed request body: the response to any
  \<open>POST /api/auth/login\<close> carries a JSON body whose \<open>success\<close> is \<open>true\<close> when the body
  parses to a value with those two properties equal to the two literals, and \<open>false\<close> in
  every other case (other values, missing properties, a body that does not parse).
  \<open>DemoAPI.login\<close> resolves a result whose \<open>success\<close> is \<open>true\<close> when its two arguments
  are those literals and \<open>false\<close> otherwise.
\<close>

theorem login_success_exactly_admin:
  "(\<exists>b. res_body (request_handler J t1 t2
              \<lparr>req_method = js ''POST'', req_url = js ''/api/auth/login'', req_chunks = chunks\<rparr>)
          = Some b
        \<and> get_prop b (js ''success'')
          = Inr (JBool (\<exists>data. JSON_parse J (concat chunks) = Some data
                          \<and> get_prop data (js ''username'') = Inr (JStr (js ''admin''))
                          \<and> get_prop data (js ''password'') = Inr (JStr (js ''admin123'')))))
   \<and> get_prop (fst (login J now api ls username password)) (js ''success'')
       = Inr (JBool (username = JStr (js ''admin'') \<and> password = JStr (js ''admin123'')))"
proof -
  let ?req = "\<lparr>req_method = js ''POST'', req_url = js ''/api/auth/login'', req_chunks = chunks\<rparr>"
  let ?ok = "\<exists>data. JSON_parse J (concat chunks) = Some data
                          \<and> get_prop data (js ''username'') = Inr (JStr (js ''admin''))
                          \<and> get_prop data (js ''password'') = Inr (JStr (js ''admin123''))"
  have neq: "js ''POST'' \<noteq> js ''OPTIONS''"
    by (simp add: js_def)
  have server: "\<exists>b. res_body (request_handler J t1 t2 ?req) = Some b
        \<and> get_prop b (js ''success'') = Inr (JBool ?ok)"
  proof (cases "check_login J (concat chunks)")
    case (Inl e)
    then have "\<not> ?ok" using check_login_Inr_True [of J "concat chunks"] by simp
    with Inl neq show ?thesis
      by (simp add: request_handler_def send_json_def invalid_json_def)
  next
    case (Inr b)
    show ?thesis
    proof (cases b)
      case True
      with Inr have "?ok" using check_login_Inr_True [of J "concat chunks"] by simp
      with Inr True neq show ?thesis
        by (simp add: request_handler_def send_json_def login_success_def)
    next
      case False
      with Inr have "\<not> ?ok" using check_login_Inr_True [of J "concat chunks"] by simp
      with Inr False neq show ?thesis
        by (simp add: request_handler_def send_json_def invalid_credentials_def)
    qed
  qed
  have demo: "get_prop (fst (login J now api ls username password)) (js ''success'')
       = Inr (JBool (username = JStr (js ''admin'') \<and> password = JStr (js ''admin123'')))"
    by (auto simp: login_def strict_equals_def)
  from server demo show ?thesis by blast
qed

text \<open>
  C1 on concrete inputs, with the reference JSON functions: the body the client sends
  for \<open>admin\<close> / \<open>admin123\<close> is accepted by the server, and the demo API accepts the same
  pair and refuses \<open>admin\<close> / \<open>admin\<close>.
\<close>

theorem login_success_exactly_admin_witness:
  "(\<exists>b. res_body (request_handler ref_JSON 0 0
              \<lparr>req_method = js ''POST'', req_url = js ''/api/auth/login'',
               req_chunks = [ref_stringify (JObj [(js ''username'', JStr (js ''admin'')),
                                                 (js ''password'', JStr (js ''admin123''))])]\<rparr>)
          = Some b
        \<and> get_prop b (js ''success'') = Inr (JBool True))
   \<and> get_prop (fst (login ref_JSON 0 \<lparr>isLoggedIn = False, posts = JArr []\<rparr> Map.empty
                        (JStr (js ''admin'')) (JStr (js ''admin123'')))) (js ''success'')
       = Inr (JBool True)
   \<and> get_prop (fst (login ref_JSON 0 \<lparr>isLoggedIn = False, posts = JArr []\<rparr> Map.empty
                        (JStr (js ''admin'')) (JStr (js ''admin''))))  (js ''success'')
       = Inr (JBool False)"
proof -
  let ?creds = "JObj [(js ''username'', JStr (js ''admin'')), (js ''password'', JStr (js ''admin123''))]"
  have p: "ref_parse (concat [ref_stringify ?creds]) = Some ?creds"
    by code_simp
  have ok: "(\<exists>data. JSON_parse ref_JSON (concat [ref_stringify ?creds]) = Some data
              \<and> get_prop data (js ''username'') = Inr (JStr (js ''admin''))
              \<and> get_prop data (js ''password'') = Inr (JStr (js ''admin123''))) = True"
    using p by (simp add: ref_JSON_def js_def)
  have ne: "js ''admin'' \<noteq> js ''admin123''"
    by (simp add: js_def)
  show ?thesis
    using login_success_exactly_admin
            [of ref_JSON 0 0 "[ref_stringify ?creds]" 0 "\<lparr>isLoggedIn = False, posts = JArr []\<rparr>"
                Map.empty "JStr (js ''admin'')" "JStr (js ''admin123'')"]
          login_success_exactly_admin
            [of ref_JSON 0 0 "[ref_stringify ?creds]" 0 "\<lparr>isLoggedIn = False, posts = JArr []\<rparr>"
                Map.empty "JStr (js ''admin'')" "JStr (js ''admin'')"]
    unfolding ok using ne by simp
qed

text \<open>
  Claim C6 as stated, that every request other than \<open>POST /api/auth/login\<close> and
  \<open>GET /api/posts\<close> is answered with the service descriptor, fails for the method
  \<open>OPTIONS\<close>: the handler answers a preflight request first, writing status 200 and
  ending the response without a body, whatever the URL.
\<close>

theorem options_request_counterexample:
  "(let req = \<lparr>req_method = js ''OPTIONS'', req_url = js ''/api/health'', req_chunks = []\<rparr>
    in \<not> (req_method req = js ''POST'' \<and> req_url req = js ''/api/auth/login'')
       \<and> \<not> (req_method req = js ''GET'' \<and> req_url req = js ''/api/posts'')
       \<and> res_status (request_handler ref_JSON 0 0 req) = 200
       \<and> res_body (request_handler ref_JSON 0 0 req) = None
       \<and> res_body (request_handler ref_JSON 0 0 req) \<noteq> Some service_descriptor)"
  by (simp add: request_handler_def js_def)

text \<open>
  Claim C6, amended, of what the request handler writes. For a request with method
  \<open>OPTIONS\<close> the handler writes status 200 with the CORS headers and ends the response
  without a body. For every request with another method that is neither
  \<open>POST /api/auth/login\<close> nor \<open>GET /api/posts\<close> the handler writes status 200 with
  the CORS headers and the JSON content type, and hands the fixed service descriptor to
  \<open>res.end\<close> as the body, \<open>HEAD\<close> requests included.
\<close>

theorem unmatched_request_descriptor:
  "(req_method req = js ''OPTIONS'' \<longrightarrow>
      request_handler J t1 t2 req
        = \<lparr>res_status = 200, res_headers = cors_headers, res_body = None\<rparr>)
   \<and> (req_method req \<noteq> js ''OPTIONS''
        \<and> \<not> (req_method req = js ''POST'' \<and> req_url req = js ''/api/auth/login'')
        \<and> \<not> (req_method req = js ''GET'' \<and> req_url req = js ''/api/posts'') \<longrightarrow>
      request_handler J t1 t2 req
        = \<lparr>res_status = 200,
           res_headers = cors_headers @ [(js ''Content-Type'', js ''application/json'')],
           res_body = Some service_descriptor\<rparr>)"
  by (auto simp: request_handler_def send_json_def)

text \<open>
  The amended C6 on four requests: a preflight, a \<open>DELETE\<close> of a post, a \<open>POST\<close> to the
  posts URL and a \<open>HEAD\<close> of the root.
\<close>

theorem unmatched_request_descriptor_witness:
  "request_handler ref_JSON 0 0
       \<lparr>req_method = js ''OPTIONS'', req_url = js ''/api/posts'', req_chunks = []\<rparr>
     = \<lparr>res_status = 200, res_headers = cors_headers, res_body = None\<rparr>
   \<and> request_handler ref_JSON 0 0
       \<lparr>req_method = js ''DELETE'', req_url = js ''/api/posts/3'', req_chunks = []\<rparr>
     = \<lparr>res_status = 200,
        res_headers = cors_headers @ [(js ''Content-Type'', js ''application/json'')],
        res_body = Some service_descriptor\<rparr>
   \<and> request_handler ref_JSON 0 0
       \<lparr>req_method = js ''POST'', req_url = js ''/api/posts'', req_chunks = []\<rparr>
     = \<lparr>res_status = 200,
        res_headers = cors_headers @ [(js ''Content-Type'', js ''application/json'')],
        res_body = Some service_descriptor\<rparr>
   \<and> request_handler ref_JSON 0 0
       \<lparr>req_method = js ''HEAD'', req_url = js ''/'', req_chunks = []\<rparr>
     = \<lparr>res_status = 200,
        res_headers = cors_headers @ [(js ''Content-Type'', js ''application/json'')],
        res_body = Some service_descriptor\<rparr>"
proof -
  have a: "js ''DELETE'' \<noteq> js ''OPTIONS''" "js ''DELETE'' \<noteq> js ''POST''"
    "js ''DELETE'' \<noteq> js ''GET''" "js ''/api/posts'' \<noteq> js ''/api/auth/login''"
    "js ''POST'' \<noteq> js ''GET''" "js ''POST'' \<noteq> js ''OPTIONS''"
    "js ''HEAD'' \<noteq> js ''OPTIONS''" "js ''HEAD'' \<noteq> js ''POST''" "js ''HEAD'' \<noteq> js ''GET''"
    by (simp_all add: js_def)
  show ?thesis
    using unmatched_request_descriptor
            [of "\<lparr>req_method = js ''OPTIONS'', req_url = js ''/api/posts'', req_chunks = []\<rparr>"
                ref_JSON 0 0]
          unmatched_request_descriptor
            [of "\<lparr>req_method = js ''DELETE'', req_url = js ''/api/posts/3'', req_chunks = []\<rparr>"
                ref_JSON 0 0]
          unmatched_request_descriptor
            [of "\<lparr>req_method = js ''POST'', req_url = js ''/api/posts'', req_chunks = []\<rparr>"
                ref_JSON 0 0]
          unmatched_request_descriptor
            [of "\<lparr>req_method = js ''HEAD'', req_url = js ''/'', req_chunks = []\<rparr>"
                ref_JSON 0 0]
          a
    by simp
qed

text \<open>
  Claim C7. A \<open>POST /api/auth/login\<close> whose body is not valid JSON (\<open>JSON.parse\<close>
  throws) is answered with status 400 and the fixed body
  \<open>{success: false, message: 'Invalid JSON'}\<close>.
\<close>

theorem login_invalid_json:
  assumes "JSON_parse J (concat chunks) = None"
  shows "request_handler J t1 t2
           \<lparr>req_method = js ''POST'', req_url = js ''/api/auth/login'', req_chunks = chunks\<rparr>
         = \<lparr>res_status = 400,
            res_headers = cors_headers @ [(js ''Content-Type'', js ''application/json'')],
            res_body = Some (JObj [(js ''success'', JBool False),
                                   (js ''message'', JStr (js ''Invalid JSON''))])\<rparr>"
proof -
  have "js ''POST'' \<noteq> js ''OPTIONS''"
    by (simp add: js_def)
  with assms show ?thesis
    by (simp add: request_handler_def check_login_def send_json_def invalid_json_def)
qed

text \<open>
  C7 on a body that arrives in two chunks, \<open>not\<close> and \<open>json\<close>, which the reference
  parser refuses.
\<close>

theorem login_invalid_json_witness:
  "JSON_parse ref_JSON (concat [js ''not '', js ''json'']) = None
   \<and> request_handler ref_JSON 0 0
         \<lparr>req_method = js ''POST'', req_url = js ''/api/auth/login'',
          req_chunks = [js ''not '', js ''json'']\<rparr>
       = \<lparr>res_status = 400,
          res_headers = cors_headers @ [(js ''Content-Type'', js ''application/json'')],
          res_body = Some (JObj [(js ''success'', JBool False),
                                 (js ''message'', JStr (js ''Invalid JSON''))])\<rparr>"
proof -
  have "ref_parse (concat [js ''not '', js ''json'']) = None"
    by code_simp
  then have h: "JSON_parse ref_JSON (concat [js ''not '', js ''json'']) = None"
    by (simp add: ref_JSON_def)
  from h login_invalid_json [OF h, of 0 0] show ?thesis by simp
qed

text \<open>
  Claim C2 as stated, that any two invocations of the \<open>GET /api/posts\<close> handler give
  equal responses, fails: the \<open>date\<close> fields of the two records are computed from the
  clock at each request, so two requests one second apart get different bodies.
\<close>

theorem posts_response_counterexample:
  "request_handler ref_JSON 1700000000000 1700000000000
       \<lparr>req_method = js ''GET'', req_url = js ''/api/posts'', req_chunks = []\<rparr>
   \<noteq> request_handler ref_JSON 1700000001000 1700000001000
       \<lparr>req_method = js ''GET'', req_url = js ''/api/posts'', req_chunks = []\<rparr>"
proof -
  have d: "toISOString 1700000000000 \<noteq> toISOString 1700000001000"
    by code_simp
  have m: "js ''GET'' \<noteq> js ''OPTIONS''" "js ''GET'' \<noteq> js ''POST''"
    by (simp_all add: js_def)
  from d m show ?thesis
    by (simp add: request_handler_def send_json_def server_posts_def)
qed

lemma posts_request_response:
  "request_handler J t1 t2 \<lparr>req_method = js ''GET'', req_url = js ''/api/posts'', req_chunks = cs\<rparr>
   = send_json 200 (JObj [(js ''success'', JBool True), (js ''posts'', JArr (server_posts t1 t2))])"
proof -
  have m: "js ''GET'' \<noteq> js ''OPTIONS''" "js ''GET'' \<noteq> js ''POST''"
    by (simp_all add: js_def)
  then show ?thesis
    by (simp add: request_handler_def)
qed

lemma server_posts_without_date:
  "map (without_prop (js ''date'')) (server_posts t1 t2)
   = map (without_prop (js ''date'')) (server_posts t1' t2')"
  by (simp add: server_posts_def js_def)

lemma server_posts_dates:
  "map (\<lambda>p. get_prop p (js ''date'')) (server_posts t1 t2)
   = [Inr (JStr (toISOString t1)), Inr (JStr (toISOString (t2 - 86400000)))]"
  by (simp add: server_posts_def js_def)

lemma server_posts_eq_iff:
  "server_posts t1 t2 = server_posts t1' t2'
   \<longleftrightarrow> toISOString t1 = toISOString t1'
       \<and> toISOString (t2 - 86400000) = toISOString (t2' - 86400000)"
  by (auto simp: server_posts_def)

text \<open>
  Claim C2, amended. Any two invocations of the \<open>GET /api/posts\<close> handler answer with
  status 200, the same headers and a body with \<open>success = true\<close> and a list of two post
  records that agree in every property except \<open>date\<close> (the same id, title, content,
  excerpt, author, tags and published flag). The \<open>date\<close> of the first record is the ISO
  text of the time of the request and that of the second the ISO text of one day
  earlier; the two responses are equal exactly when these texts are.
\<close>

theorem posts_response_fixed_but_dates:
  "(let req = \<lparr>req_method = js ''GET'', req_url = js ''/api/posts'', req_chunks = cs\<rparr>;
        r = request_handler J t1 t2 req;
        r' = request_handler J t1' t2' req
    in res_status r = 200 \<and> res_status r' = 200
       \<and> res_headers r = res_headers r'
       \<and> res_body r = Some (JObj [(js ''success'', JBool True),
                                   (js ''posts'', JArr (server_posts t1 t2))])
       \<and> res_body r' = Some (JObj [(js ''success'', JBool True),
                                    (js ''posts'', JArr (server_posts t1' t2'))])
       \<and> length (server_posts t1 t2) = 2 \<and> length (server_posts t1' t2') = 2
       \<and> map (without_prop (js ''date'')) (server_posts t1 t2)
           = map (without_prop (js ''date'')) (server_posts t1' t2')
       \<and> map (\<lambda>p. get_prop p (js ''date'')) (server_posts t1 t2)
           = [Inr (JStr (toISOString t1)), Inr (JStr (toISOString (t2 - 86400000)))]
       \<and> (r = r') = (toISOString t1 = toISOString t1'
                      \<and> toISOString (t2 - 86400000) = toISOString (t2' - 86400000)))"
proof -
  have len: "length (server_posts a b) = 2" for a b
    by (simp add: server_posts_def)
  show ?thesis
    unfolding Let_def posts_request_response
    using server_posts_without_date [of t1 t2 t1' t2'] server_posts_dates [of t1 t2]
      server_posts_eq_iff [of t1 t2 t1' t2'] len
    by (simp add: send_json_def)
qed

text \<open>
  The amended C2 on two requests one second apart, on 14 November 2023: same records but
  for the dates, and different responses.
\<close>

theorem posts_response_fixed_but_dates_witness:
  "(let req = \<lparr>req_method = js ''GET'', req_url = js ''/api/posts'', req_chunks = []\<rparr>;
        r = request_handler ref_JSON 1700000000000 1700000000000 req;
        r' = request_handler ref_JSON 1700000001000 1700000001000 req
    in res_status r = 200 \<and> res_status r' = 200
       \<and> map (without_prop (js ''date'')) (server_posts 1700000000000 1700000000000)
           = map (without_prop (js ''date'')) (server_posts 1700000001000 1700000001000)
       \<and> map (\<lambda>p. get_prop p (js ''date'')) (server_posts 1700000000000 1700000000000)
           = [Inr (JStr (js ''2023-11-14T22:13:20.000Z'')),
              Inr (JStr (js ''2023-11-13T22:13:20.000Z''))]
       \<and> r \<noteq> r')"
proof -
  have d: "toISOString 1700000000000 = js ''2023-11-14T22:13:20.000Z''"
    "toISOString (1700000000000 - 86400000) = js ''2023-11-13T22:13:20.000Z''"
    "toISOString 1700000000000 \<noteq> toISOString 1700000001000"
    by code_simp+
  show ?thesis
    using posts_response_fixed_but_dates
            [of "[]" ref_JSON 1700000000000 1700000000000 1700000001000 1700000001000] d
    unfolding Let_def by simp
qed

section \<open>Properties of the demo API\<close>

lemma storage_keys_distinct:
  "js ''demo_logged_in'' \<noteq> js ''demo_posts''" "js ''demo_user'' \<noteq> js ''demo_posts''"
  by (simp_all add: js_def)

text \<open>
  Claim C9. On an instance that is not logged in, \<open>createPost\<close> and \<open>deletePost\<close>
  resolve \<open>{success: false, message: 'Not authenticated'}\<close>, whatever their arguments,
  and leave the instance (so its posts field) and the storage (so the text stored under
  \<open>demo_posts\<close>) as they were.
\<close>

theorem unauthenticated_mutations_rejected:
  assumes "\<not> isLoggedIn api"
  shows "createPost J t_id t_date api ls title content tags
           = Inr (JObj [(js ''success'', JBool False),
                        (js ''message'', JStr (js ''Not authenticated''))], api, ls)
         \<and> deletePost J api ls postId
           = Inr (JObj [(js ''success'', JBool False),
                        (js ''message'', JStr (js ''Not authenticated''))], api, ls)"
  using assms by (simp add: createPost_def deletePost_def not_authenticated_def)

text \<open>C9 on a logged-out instance holding the mock posts.\<close>

theorem unauthenticated_mutations_rejected_witness:
  "\<not> isLoggedIn \<lparr>isLoggedIn = False, posts = mockPosts\<rparr>
   \<and> createPost ref_JSON 1700000000000 1700000000000 \<lparr>isLoggedIn = False, posts = mockPosts\<rparr>
        [js ''demo_posts'' \<mapsto> ref_stringify mockPosts]
        (JStr (js ''A title'')) (JStr (js ''Some content'')) JUndefined
       = Inr (JObj [(js ''success'', JBool False),
                    (js ''message'', JStr (js ''Not authenticated''))],
              \<lparr>isLoggedIn = False, posts = mockPosts\<rparr>,
              [js ''demo_posts'' \<mapsto> ref_stringify mockPosts])
   \<and> deletePost ref_JSON \<lparr>isLoggedIn = False, posts = mockPosts\<rparr>
        [js ''demo_posts'' \<mapsto> ref_stringify mockPosts] (JNum 1)
       = Inr (JObj [(js ''success'', JBool False),
                    (js ''message'', JStr (js ''Not authenticated''))],
              \<lparr>isLoggedIn = False, posts = mockPosts\<rparr>,
              [js ''demo_posts'' \<mapsto> ref_stringify mockPosts])"
proof -
  have h: "\<not> isLoggedIn \<lparr>isLoggedIn = False, posts = mockPosts\<rparr>"
    by simp
  from h unauthenticated_mutations_rejected
         [OF h, of ref_JSON 1700000000000 1700000000000
            "[js ''demo_posts'' \<mapsto> ref_stringify mockPosts]"
            "JStr (js ''A title'')" "JStr (js ''Some content'')" JUndefined "JNum 1"]
  show ?thesis by blast
qed

lemma in_sync_save: "in_sync J api (savePostsToStorage J api ls)"
  by (simp add: in_sync_def savePostsToStorage_def getItem_def setItem_def)

lemma constructor_in_sync:
  "DemoAPI_constructor J ls = Inr (api, ls') \<Longrightarrow> in_sync J api ls'"
  by (auto simp: DemoAPI_constructor_def Let_def in_sync_save split: option.splits)

lemma createPost_in_sync:
  "in_sync J api ls \<Longrightarrow> createPost J t_id t_date api ls title content tags = Inr (r, api', ls')
   \<Longrightarrow> in_sync J api' ls'"
  by (auto simp: createPost_def Let_def in_sync_save split: if_splits jsvalue.splits)

lemma deletePost_in_sync:
  "in_sync J api ls \<Longrightarrow> deletePost J api ls postId = Inr (r, api', ls')
   \<Longrightarrow> in_sync J api' ls'"
  by (auto simp: deletePost_def Let_def in_sync_save split: if_splits jsvalue.splits sum.splits)

lemma login_in_sync:
  "in_sync J api ls \<Longrightarrow> login J now api ls u p = (r, api', ls') \<Longrightarrow> in_sync J api' ls'"
  using storage_keys_distinct
  by (auto simp: login_def in_sync_def getItem_def setItem_def split: if_splits)

lemma logout_in_sync:
  "in_sync J api ls \<Longrightarrow> logout api ls = (r, api', ls') \<Longrightarrow> in_sync J api' ls'"
  using storage_keys_distinct
  by (auto simp: logout_def in_sync_def getItem_def removeItem_def)

lemma call_in_sync:
  assumes "in_sync J api ls" and "call J c (api, ls) = (api', ls')"
  shows "in_sync J api' ls'"
proof (cases c)
  case (Login now u p)
  with assms show ?thesis
    using login_in_sync [of J api ls now u p] by (cases "login J now api ls u p") auto
next
  case Logout
  with assms show ?thesis
    using logout_in_sync [of J api ls] by (cases "logout api ls") auto
next
  case GetPosts
  with assms show ?thesis by simp
next
  case (CreatePost t_id t_date title content tags)
  with assms show ?thesis
    using createPost_in_sync [of J api ls t_id t_date title content tags]
    by (auto split: sum.splits)
next
  case (DeletePost postId)
  with assms show ?thesis
    using deletePost_in_sync [of J api ls postId]
    by (auto split: sum.splits)
qed

lemma session_in_sync:
  "in_sync J (fst s) (snd s) \<Longrightarrow> in_sync J (fst (session J ops s)) (snd (session J ops s))"
proof (induction ops arbitrary: s)
  case Nil
  then show ?case by (simp add: session_def)
next
  case (Cons c ops)
  obtain api ls where s: "s = (api, ls)"
    by (cases s)
  obtain api' ls' where c: "call J c (api, ls) = (api', ls')"
    by (cases "call J c (api, ls)")
  with Cons.prems s have "in_sync J api' ls'"
    using call_in_sync by simp
  then have "in_sync J (fst (session J ops (api', ls'))) (snd (session J ops (api', ls')))"
    using Cons.IH [of "(api', ls')"] by simp
  with s c show ?case
    by (simp add: session_def)
qed

text \<open>
  Claim C10. When the constructor completes, the text stored under \<open>demo_posts\<close> is the
  JSON serialization of the posts field of the new instance. Every operation keeps it so:
  if stored text and posts field agree before \<open>createPost\<close>, \<open>deletePost\<close>, \<open>login\<close> or
  \<open>logout\<close>, they agree after it (a call that throws changes neither). So after any
  sequence of calls on a constructed instance they still agree: the stored and the
  in-memory list never diverge between operations.
\<close>

theorem stored_posts_in_sync:
  "(DemoAPI_constructor J ls = Inr (api, ls') \<longrightarrow> in_sync J api ls')
   \<and> (in_sync J api ls \<and> createPost J t_id t_date api ls title content tags = Inr (r, api', ls')
        \<longrightarrow> in_sync J api' ls')
   \<and> (in_sync J api ls \<and> deletePost J api ls postId = Inr (r, api', ls')
        \<longrightarrow> in_sync J api' ls')
   \<and> (in_sync J api ls \<and> login J now api ls username password = (r, api', ls')
        \<longrightarrow> in_sync J api' ls')
   \<and> (in_sync J api ls \<and> logout api ls = (r, api', ls') \<longrightarrow> in_sync J api' ls')
   \<and> (DemoAPI_constructor J ls = Inr start
        \<longrightarrow> in_sync J (fst (session J ops start)) (snd (session J ops start)))"
proof (intro conjI impI)
  assume "DemoAPI_constructor J ls = Inr (api, ls')"
  then show "in_sync J api ls'"
    by (rule constructor_in_sync)
next
  assume "in_sync J api ls \<and> createPost J t_id t_date api ls title content tags = Inr (r, api', ls')"
  then show "in_sync J api' ls'"
    using createPost_in_sync by blast
next
  assume "in_sync J api ls \<and> deletePost J api ls postId = Inr (r, api', ls')"
  then show "in_sync J api' ls'"
    using deletePost_in_sync by blast
next
  assume "in_sync J api ls \<and> login J now api ls username password = (r, api', ls')"
  then show "in_sync J api' ls'"
    using login_in_sync by blast
next
  assume "in_sync J api ls \<and> logout api ls = (r, api', ls')"
  then show "in_sync J api' ls'"
    using logout_in_sync by blast
next
  assume "DemoAPI_constructor J ls = Inr start"
  then have "in_sync J (fst start) (snd start)"
    using constructor_in_sync [of J ls "fst start" "snd start"] by simp
  then show "in_sync J (fst (session J ops start)) (snd (session J ops start))"
    by (rule session_in_sync)
qed

lemma ref_parse_null: "ref_parse (js ''null'') = Some JNull"
  by code_simp

lemma constructor_fresh:
  "DemoAPI_constructor ref_JSON Map.empty
   = Inr (\<lparr>isLoggedIn = False, posts = mockPosts\<rparr>,
          [js ''demo_posts'' \<mapsto> ref_stringify mockPosts])"
  by (simp add: DemoAPI_constructor_def getItem_def ref_JSON_def ref_parse_null
      savePostsToStorage_def setItem_def)

text \<open>
  C10 on concrete runs: the constructor on an empty storage (which takes the mock posts),
  \<open>createPost\<close> and \<open>deletePost\<close> on a logged-in instance holding one post, and a
  session of five calls on a first visit.
\<close>

theorem stored_posts_in_sync_witness:
  "(\<exists>api ls'. DemoAPI_constructor ref_JSON Map.empty = Inr (api, ls') \<and> posts api = mockPosts
       \<and> in_sync ref_JSON api ls')
   \<and> in_sync ref_JSON \<lparr>isLoggedIn = True, posts = JArr [JObj [(js ''id'', JNum 7)]]\<rparr>
         [js ''demo_posts'' \<mapsto> ref_stringify (JArr [JObj [(js ''id'', JNum 7)]])]
   \<and> (\<exists>r api' ls'.
         createPost ref_JSON 1700000000000 1700000000000
           \<lparr>isLoggedIn = True, posts = JArr [JObj [(js ''id'', JNum 7)]]\<rparr>
           [js ''demo_posts'' \<mapsto> ref_stringify (JArr [JObj [(js ''id'', JNum 7)]])]
           (JStr (js ''A title'')) (JStr (js ''Some content'')) JUndefined
         = Inr (r, api', ls')
         \<and> in_sync ref_JSON api' ls')
   \<and> (\<exists>r api' ls'.
         deletePost ref_JSON
           \<lparr>isLoggedIn = True, posts = JArr [JObj [(js ''id'', JNum 7)]]\<rparr>
           [js ''demo_posts'' \<mapsto> ref_stringify (JArr [JObj [(js ''id'', JNum 7)]])]
           (JNum 7)
         = Inr (r, api', ls')
         \<and> in_sync ref_JSON api' ls')
   \<and> (\<exists>st. DemoAPI_constructor ref_JSON Map.empty = Inr st
         \<and> in_sync ref_JSON
              (fst (session ref_JSON
                      [Login 1700000000000 (JStr (js ''admin'')) (JStr (js ''admin123'')),
                       CreatePost 1700000001000 1700000001000 (JStr (js ''A title''))
                         (JStr (js ''Some content'')) JUndefined,
                       DeletePost (JNum 2), GetPosts, Logout] st))
              (snd (session ref_JSON
                      [Login 1700000000000 (JStr (js ''admin'')) (JStr (js ''admin123'')),
                       CreatePost 1700000001000 1700000001000 (JStr (js ''A title''))
                         (JStr (js ''Some content'')) JUndefined,
                       DeletePost (JNum 2), GetPosts, Logout] st)))"
proof -
  let ?api = "\<lparr>isLoggedIn = True, posts = JArr [JObj [(js ''id'', JNum 7)]]\<rparr>"
  let ?ls = "[js ''demo_posts'' \<mapsto> ref_stringify (JArr [JObj [(js ''id'', JNum 7)]])]"
  let ?fresh = "(\<lparr>isLoggedIn = False, posts = mockPosts\<rparr>,
                 [js ''demo_posts'' \<mapsto> ref_stringify mockPosts])"
  let ?ops = "[Login 1700000000000 (JStr (js ''admin'')) (JStr (js ''admin123'')),
               CreatePost 1700000001000 1700000001000 (JStr (js ''A title''))
                 (JStr (js ''Some content'')) JUndefined,
               DeletePost (JNum 2), GetPosts, Logout]"
  have s0: "in_sync ref_JSON ?api ?ls"
    by (simp add: in_sync_def getItem_def ref_JSON_def)
  obtain r1 a1 l1 where c: "createPost ref_JSON 1700000000000 1700000000000 ?api ?ls
      (JStr (js ''A title'')) (JStr (js ''Some content'')) JUndefined = Inr (r1, a1, l1)"
    by (simp add: createPost_def Let_def)
  obtain r2 a2 l2 where d: "deletePost ref_JSON ?api ?ls (JNum 7) = Inr (r2, a2, l2)"
    by (simp add: deletePost_def Let_def)
  note made = stored_posts_in_sync
      [where J = ref_JSON and ls = Map.empty
         and api = "\<lparr>isLoggedIn = False, posts = mockPosts\<rparr>"
         and ls' = "[js ''demo_posts'' \<mapsto> ref_stringify mockPosts]", THEN conjunct1]
  have k: "\<exists>api ls'. DemoAPI_constructor ref_JSON Map.empty = Inr (api, ls')
      \<and> posts api = mockPosts \<and> in_sync ref_JSON api ls'"
    using constructor_fresh made by simp
  note created = stored_posts_in_sync
      [where J = ref_JSON and api = ?api and ls = ?ls
         and t_id = 1700000000000 and t_date = 1700000000000 and title = "JStr (js ''A title'')"
         and content = "JStr (js ''Some content'')" and tags = JUndefined
         and r = r1 and api' = a1 and ls' = l1, THEN conjunct2, THEN conjunct1]
  have c': "in_sync ref_JSON a1 l1"
    using s0 c created by blast
  note deleted = stored_posts_in_sync
      [where J = ref_JSON and api = ?api and ls = ?ls
         and postId = "JNum 7" and r = r2 and api' = a2 and ls' = l2,
       THEN conjunct2, THEN conjunct2, THEN conjunct1]
  have d': "in_sync ref_JSON a2 l2"
    using s0 d deleted by blast
  note run = stored_posts_in_sync
      [where J = ref_JSON and ls = Map.empty and ops = ?ops and start = ?fresh,
       THEN conjunct2, THEN conjunct2, THEN conjunct2, THEN conjunct2, THEN conjunct2]
  have e: "\<exists>st. DemoAPI_constructor ref_JSON Map.empty = Inr st
      \<and> in_sync ref_JSON (fst (session ref_JSON ?ops st)) (snd (session ref_JSON ?ops st))"
    using constructor_fresh run by blast
  have c2: "\<exists>r api' ls'.
      createPost ref_JSON 1700000000000 1700000000000 ?api ?ls
        (JStr (js ''A title'')) (JStr (js ''Some content'')) JUndefined = Inr (r, api', ls')
      \<and> in_sync ref_JSON api' ls'"
    using c c' by blast
  have d2: "\<exists>r api' ls'. deletePost ref_JSON ?api ?ls (JNum 7) = Inr (r, api', ls')
      \<and> in_sync ref_JSON api' ls'"
    using d d' by blast
  from k s0 c2 d2 e show ?thesis
    by (intro conjI)
qed

lemma get_prop_id_of:
  "p \<noteq> JNull \<Longrightarrow> p \<noteq> JUndefined \<Longrightarrow> get_prop p (js ''id'') = Inr (id_of p)"
  by (cases p) (simp_all add: id_of_def)

lemma filter_posts_filter:
  "JNull \<notin> set ps \<Longrightarrow> JUndefined \<notin> set ps
   \<Longrightarrow> filter_posts ps postId = Inr (filter (\<lambda>p. \<not> strict_equals (id_of p) postId) ps)"
proof (induction ps)
  case Nil
  then show ?case by simp
next
  case (Cons p ps)
  from Cons.prems have "p \<noteq> JNull" and "p \<noteq> JUndefined"
    by auto
  then have "get_prop p (js ''id'') = Inr (id_of p)"
    by (rule get_prop_id_of)
  with Cons show ?case by simp
qed

lemma strict_equals_primitive:
  "is_primitive b \<Longrightarrow> strict_equals a b = (a = b)"
  by (auto simp: strict_equals_def)

text \<open>
  Claim C4. On a logged-in instance whose posts field is a list of records (an array
  with no \<open>null\<close> or \<open>undefined\<close> element), \<open>deletePost(postId)\<close> with a primitive
  identifier (a number, a string, a boolean, \<open>null\<close> or \<open>undefined\<close>) resolves a
  success and replaces the list by the one without the records whose \<open>id\<close> is
  \<open>postId\<close>: exactly the records with that \<open>id\<close> go, every other record stays,
  unchanged and in its place in the order, and the filtered list is written to the
  storage under \<open>demo_posts\<close>.
\<close>

theorem deletePost_removes_matching:
  assumes "isLoggedIn api" and "posts api = JArr ps"
    and "JNull \<notin> set ps" and "JUndefined \<notin> set ps"
    and "is_primitive postId"
  shows "deletePost J api ls postId
         = Inr (JObj [(js ''success'', JBool True),
                      (js ''message'', JStr (js ''Post deleted successfully (demo mode)''))],
                api\<lparr>posts := JArr (filter (\<lambda>p. id_of p \<noteq> postId) ps)\<rparr>,
                setItem ls (js ''demo_posts'')
                  (JSON_stringify J (JArr (filter (\<lambda>p. id_of p \<noteq> postId) ps))))"
  using assms
  by (simp add: deletePost_def filter_posts_filter savePostsToStorage_def
      strict_equals_primitive)

text \<open>
  C4 on four posts with the ids 3, 1, the string \<open>1\<close> and 2: deleting the number 1
  removes the second post only.
\<close>

theorem deletePost_removes_matching_witness:
  "deletePost ref_JSON
     \<lparr>isLoggedIn = True,
      posts = JArr [JObj [(js ''id'', JNum 3), (js ''title'', JStr (js ''c''))],
                    JObj [(js ''id'', JNum 1), (js ''title'', JStr (js ''a''))],
                    JObj [(js ''id'', JStr (js ''1'')), (js ''title'', JStr (js ''s''))],
                    JObj [(js ''id'', JNum 2), (js ''title'', JStr (js ''b''))]]\<rparr>
     Map.empty (JNum 1)
   = Inr (JObj [(js ''success'', JBool True),
                (js ''message'', JStr (js ''Post deleted successfully (demo mode)''))],
          \<lparr>isLoggedIn = True,
           posts = JArr [JObj [(js ''id'', JNum 3), (js ''title'', JStr (js ''c''))],
                         JObj [(js ''id'', JStr (js ''1'')), (js ''title'', JStr (js ''s''))],
                         JObj [(js ''id'', JNum 2), (js ''title'', JStr (js ''b''))]]\<rparr>,
          [js ''demo_posts'' \<mapsto>
             ref_stringify
               (JArr [JObj [(js ''id'', JNum 3), (js ''title'', JStr (js ''c''))],
                      JObj [(js ''id'', JStr (js ''1'')), (js ''title'', JStr (js ''s''))],
                      JObj [(js ''id'', JNum 2), (js ''title'', JStr (js ''b''))]])])"
proof -
  let ?ps = "[JObj [(js ''id'', JNum 3), (js ''title'', JStr (js ''c''))],
              JObj [(js ''id'', JNum 1), (js ''title'', JStr (js ''a''))],
              JObj [(js ''id'', JStr (js ''1'')), (js ''title'', JStr (js ''s''))],
              JObj [(js ''id'', JNum 2), (js ''title'', JStr (js ''b''))]]"
  have f: "filter (\<lambda>p. id_of p \<noteq> JNum 1) ?ps
           = [JObj [(js ''id'', JNum 3), (js ''title'', JStr (js ''c''))],
              JObj [(js ''id'', JStr (js ''1'')), (js ''title'', JStr (js ''s''))],
              JObj [(js ''id'', JNum 2), (js ''title'', JStr (js ''b''))]]"
    by (simp add: id_of_def)
  show ?thesis
    using deletePost_removes_matching
            [where api = "\<lparr>isLoggedIn = True, posts = JArr ?ps\<rparr>" and ps = ?ps
               and J = ref_JSON and ls = Map.empty and postId = "JNum 1"]
    unfolding f by (simp add: setItem_def ref_JSON_def)
qed

text \<open>
  The posts field stays a list of records through every call, so the condition of C3
  and C4 on it holds throughout a session that starts on a storage without stored posts
  (a first visit, where the constructor takes the mock posts).
\<close>

lemma filter_posts_records:
  "filter_posts ps postId = Inr ps' \<Longrightarrow> set ps' \<subseteq> set ps"
proof (induction ps arbitrary: ps')
  case Nil
  then show ?case by simp
next
  case (Cons p ps)
  then show ?case
    by (auto split: sum.splits if_splits)
qed

lemma call_posts_are_records:
  assumes "posts_are_records api"
  shows "posts_are_records (fst (call J c (api, ls)))"
proof (cases c)
  case (Login now u p)
  with assms show ?thesis
    by (simp add: login_def posts_are_records_def)
next
  case Logout
  with assms show ?thesis
    by (simp add: logout_def posts_are_records_def)
next
  case GetPosts
  with assms show ?thesis by simp
next
  case (CreatePost t_id t_date title content tags)
  with assms show ?thesis
    by (auto simp: createPost_def Let_def posts_are_records_def newPost_def
        split: sum.splits jsvalue.splits if_splits)
next
  case (DeletePost postId)
  with assms show ?thesis
    using filter_posts_records
    by (auto simp: deletePost_def Let_def posts_are_records_def
        split: sum.splits jsvalue.splits if_splits)
qed

lemma session_posts_are_records:
  "posts_are_records (fst s) \<Longrightarrow> posts_are_records (fst (session J ops s))"
proof (induction ops arbitrary: s)
  case Nil
  then show ?case by (simp add: session_def)
next
  case (Cons c ops)
  obtain api ls where s: "s = (api, ls)"
    by (cases s)
  with Cons.prems have "posts_are_records (fst (call J c (api, ls)))"
    using call_posts_are_records by simp
  then have "posts_are_records (fst (session J ops (call J c (api, ls))))"
    by (rule Cons.IH)
  with s show ?case
    by (simp add: session_def)
qed

lemma first_visit_posts_are_records:
  assumes "getItem ls (js ''demo_posts'') = None" and "JSON_parse J (js ''null'') = Some JNull"
    and "DemoAPI_constructor J ls = Inr s"
  shows "posts_are_records (fst (session J ops s))"
proof -
  from assms have "posts (fst s) = mockPosts"
    by (auto simp: DemoAPI_constructor_def Let_def)
  then have "posts_are_records (fst s)"
    by (simp add: posts_are_records_def mockPosts_def)
  then show ?thesis
    by (rule session_posts_are_records)
qed

lemma substring_0: "substring s 0 n = take n s"
  by (simp add: substring_def Let_def min_def)

lemma newPost_excerpt:
  "get_prop (newPost t_id t_date title c tags) (js ''excerpt'') = Inr (JStr (take 100 c @ js ''...''))"
  by (simp add: newPost_def substring_0 js_def)

text \<open>
  Claim C3. On a logged-in instance whose posts field is a list, \<open>createPost\<close> with a
  string content resolves a success, puts the new record in front of the list, with an
  excerpt made of the first 100 code units of the content followed by three dots, and
  writes the new list to the storage under \<open>demo_posts\<close>. A \<open>DemoAPI\<close> constructed
  afterwards on that storage (a reload) holds the same list again, the created record
  first, provided the list survives the passage through JSON (\<open>JSON.parse\<close> of its
  \<open>JSON.stringify\<close> gives it back, as it does for titles and tags that are strings).
\<close>

theorem createPost_prepends_and_persists:
  assumes "isLoggedIn api" and "posts api = JArr ps"
  shows "(let p = newPost t_id t_date title c (if tags = JUndefined then JArr [] else tags);
              api' = api\<lparr>posts := JArr (p # ps)\<rparr>;
              ls' = setItem ls (js ''demo_posts'') (JSON_stringify J (JArr (p # ps)))
          in createPost J t_id t_date api ls title (JStr c) tags
               = Inr (JObj [(js ''success'', JBool True),
                            (js ''post'', p),
                            (js ''message'', JStr (js ''Post created successfully (demo mode)''))],
                      api', ls')
             \<and> get_prop p (js ''excerpt'') = Inr (JStr (take 100 c @ js ''...''))
             \<and> getItem ls' (js ''demo_posts'') = Some (JSON_stringify J (JArr (p # ps)))
             \<and> (JSON_parse J (JSON_stringify J (JArr (p # ps))) = Some (JArr (p # ps)) \<longrightarrow>
                  (\<exists>api2 ls2. DemoAPI_constructor J ls' = Inr (api2, ls2)
                      \<and> posts api2 = JArr (p # ps))))"
  using assms
  by (simp add: Let_def createPost_def savePostsToStorage_def newPost_excerpt
      getItem_def setItem_def DemoAPI_constructor_def)


text \<open>
  C3 on a concrete run with the reference JSON functions: a post created in front of an
  older one and found again first after the reload; and the excerpt of a content of 103
  code units, cut after the first 100.
\<close>

theorem createPost_prepends_and_persists_witness:
  "(let c = js ''Plants grow.'';
        p = newPost 1700000000000 1700000000001 (JStr (js ''Notes'')) c (JArr [JStr (js ''demo'')]);
        old = JObj [(js ''id'', JNum 7)];
        api = \<lparr>isLoggedIn = True, posts = JArr [old]\<rparr>;
        ls' = [js ''demo_posts'' \<mapsto> ref_stringify (JArr [p, old])]
    in createPost ref_JSON 1700000000000 1700000000001 api Map.empty
           (JStr (js ''Notes'')) (JStr c) (JArr [JStr (js ''demo'')])
         = Inr (JObj [(js ''success'', JBool True),
                      (js ''post'', p),
                      (js ''message'', JStr (js ''Post created successfully (demo mode)''))],
                \<lparr>isLoggedIn = True, posts = JArr [p, old]\<rparr>, ls')
       \<and> get_prop p (js ''id'') = Inr (JNum 1700000000000)
       \<and> get_prop p (js ''date'') = Inr (JStr (js ''2023-11-14''))
       \<and> get_prop p (js ''excerpt'') = Inr (JStr (js ''Plants grow....''))
       \<and> ref_parse (ref_stringify (JArr [p, old])) = Some (JArr [p, old])
       \<and> (\<exists>api2 ls2. DemoAPI_constructor ref_JSON ls' = Inr (api2, ls2)
              \<and> posts api2 = JArr [p, old]))
   \<and> get_prop (newPost 1700000000000 1700000000001 JUndefined
                  (js ''Plants grow slowly at first, then all at once; a garden of notes does the same when it is tended daily.'')
                  (JArr []))
         (js ''excerpt'')
       = Inr (JStr (js ''Plants grow slowly at first, then all at once; a garden of notes does the same when it is tended dai...''))"
proof -
  let ?c = "js ''Plants grow.''"
  let ?p = "newPost 1700000000000 1700000000001 (JStr (js ''Notes'')) ?c (JArr [JStr (js ''demo'')])"
  let ?old = "JObj [(js ''id'', JNum 7)]"
  let ?api = "\<lparr>isLoggedIn = True, posts = JArr [?old]\<rparr>"
  let ?long = "js ''Plants grow slowly at first, then all at once; a garden of notes does the same when it is tended daily.''"
  have rt: "ref_parse (ref_stringify (JArr [?p, ?old])) = Some (JArr [?p, ?old])"
    by code_simp
  have ex: "take 100 ?c @ js ''...'' = js ''Plants grow....''"
    "take 100 ?long @ js ''...'' = js ''Plants grow slowly at first, then all at once; a garden of notes does the same when it is tended dai...''"
    by code_simp+
  have dt: "get_prop ?p (js ''date'') = Inr (JStr (js ''2023-11-14''))"
    "get_prop ?p (js ''id'') = Inr (JNum 1700000000000)"
    by code_simp+
  have h: "isLoggedIn ?api" "posts ?api = JArr [?old]"
    by simp_all
  note short = createPost_prepends_and_persists
      [OF h, where J = ref_JSON and t_id = 1700000000000 and t_date = 1700000000001
         and title = "JStr (js ''Notes'')" and c = ?c and tags = "JArr [JStr (js ''demo'')]"
         and ls = Map.empty]
  note long = createPost_prepends_and_persists
      [OF h, where J = ref_JSON and t_id = 1700000000000 and t_date = 1700000000001
         and title = JUndefined and c = ?long and tags = JUndefined and ls = Map.empty]
  from short long rt ex dt show ?thesis
    unfolding Let_def by (simp add: ref_JSON_def setItem_def)
qed

text \<open>
  With the reference JSON functions the passage through JSON needs no assumption: when
  the title, the tags and the posts already in the list are values JSON represents as
  they are, the list written by \<open>createPost\<close> is the list a reload finds.
\<close>

lemma jsonable_newPost:
  assumes "jsonable title" and "jsonable tags"
  shows "jsonable (newPost t_id t_date title c tags)"
  using assms by (simp add: newPost_def js_def)

lemma createPost_reload_ref_JSON:
  assumes "isLoggedIn api" and "posts api = JArr ps" and "list_all jsonable ps"
    and "jsonable title" and "tags = JUndefined \<or> jsonable tags"
    and "createPost ref_JSON t_id t_date api ls title (JStr c) tags = Inr (r, api', ls')"
  shows "\<exists>api2 ls2. DemoAPI_constructor ref_JSON ls' = Inr (api2, ls2) \<and> posts api2 = posts api'
           \<and> posts api' = JArr (newPost t_id t_date title c (if tags = JUndefined then JArr [] else tags) # ps)"
proof -
  let ?p = "newPost t_id t_date title c (if tags = JUndefined then JArr [] else tags)"
  have "jsonable (if tags = JUndefined then JArr [] else tags)"
    using assms(5) by auto
  with assms(4) have "jsonable ?p"
    by (rule jsonable_newPost)
  with assms(3) have "jsonable (JArr (?p # ps))"
    by simp
  then have rt: "JSON_parse ref_JSON (JSON_stringify ref_JSON (JArr (?p # ps))) = Some (JArr (?p # ps))"
    by (rule ref_JSON_round_trip)
  from assms(1,2,6) have a: "posts api' = JArr (?p # ps)"
    and l: "ls' = setItem ls (js ''demo_posts'') (JSON_stringify ref_JSON (JArr (?p # ps)))"
    by (auto simp: createPost_def Let_def savePostsToStorage_def)
  from rt a l show ?thesis
    by (simp add: DemoAPI_constructor_def getItem_def setItem_def savePostsToStorage_def)
qed

section \<open>Properties of the application controller\<close>

lemma controller_request_targets:
  "loadPosts_request env = Fetch (js ''GET'') (js ''http://127.0.0.1:9090/api/posts'')
   \<and> login_request env = Fetch (js ''POST'') (js ''http://127.0.0.1:9090/api/auth/login'')
   \<and> verifyAuthToken_request env = Fetch (js ''GET'') (js ''/api/auth/verify'')
   \<and> createPost_request env = Fetch (js ''POST'') (js ''/api/posts'')
   \<and> updatePost_request env postId = Fetch (js ''PUT'') (js ''/api/posts/'' @ postId)
   \<and> deletePost_request env postId = Fetch (js ''DELETE'') (js ''/api/posts/'' @ postId)"
  by (simp add: loadPosts_request_def login_request_def verifyAuthToken_request_def
      createPost_request_def updatePost_request_def deletePost_request_def)

lemma load_scripts_exports:
  "load_scripts J h ls = Inr (env, ls')
   \<Longrightarrow> hostname env = h \<and> APP_CONFIG env = getConfig h
       \<and> (demoAPI env \<noteq> None) = isStaticDeployment h"
  by (auto simp: load_scripts_def split: if_splits sum.splits)

text \<open>
  Claim C5 does not hold of the code. A first visit on the host
  \<open>my-garden.netlify.app\<close> is static hosting for both detections: \<open>isStaticDeployment\<close>
  holds, so that demo-mode.js creates the demo API instance with the mock posts, and
  \<open>getEnvironment\<close> gives \<open>netlify\<close>, whose configuration has \<open>DEMO_MODE\<close> set. The
  header of demo-mode.js and the comment on that configuration say that static hosting
  uses the demo mode, and the claim says that the controller then issues its requests to
  the demo API. The controller does not: post loading and login still fetch from the
  address of the real server, \<open>http://127.0.0.1:9090/api/...\<close>, written out in
  \<open>loadPosts\<close> and in the login handler, and neither is a call of the demo API.
\<close>

theorem static_hosting_fetches_real_server:
  "(case load_scripts ref_JSON (js ''my-garden.netlify.app'') Map.empty of
      Inl e \<Rightarrow> False
    | Inr (env, ls') \<Rightarrow>
        isStaticDeployment (hostname env)
        \<and> getEnvironment (hostname env) = js ''netlify''
        \<and> get_prop (APP_CONFIG env) (js ''DEMO_MODE'') = Inr (JBool True)
        \<and> demoAPI env = Some \<lparr>isLoggedIn = False, posts = mockPosts\<rparr>
        \<and> loadPosts_request env = Fetch (js ''GET'') (js ''http://127.0.0.1:9090/api/posts'')
        \<and> login_request env = Fetch (js ''POST'') (js ''http://127.0.0.1:9090/api/auth/login'')
        \<and> \<not> is_demo_call (loadPosts_request env)
        \<and> \<not> is_demo_call (login_request env))"
proof -
  have s: "isStaticDeployment (js ''my-garden.netlify.app'')"
    and e: "getEnvironment (js ''my-garden.netlify.app'') = js ''netlify''"
    by code_simp+
  have c: "get_prop (getConfig (js ''my-garden.netlify.app'')) (js ''DEMO_MODE'') = Inr (JBool True)"
    by code_simp
  from s e c show ?thesis
    by (simp add: load_scripts_def constructor_fresh loadPosts_request_def login_request_def)
qed

lemma new_theme_stored:
  "or_light (Some (if t = js ''dark'' then js ''light'' else js ''dark''))
   = (if t = js ''dark'' then js ''light'' else js ''dark'')"
  by (simp add: or_light_def js_def)

text \<open>
  Claim C8. On a page that has the theme toggle, start-up applies the theme stored under
  \<open>theme\<close> in local storage, and \<open>light\<close> when none (or an empty one) is stored. A click
  on the toggle applies the other theme (\<open>light\<close> from \<open>dark\<close>, \<open>dark\<close> otherwise) and
  writes it to local storage, and the next start-up applies that theme again.
\<close>

theorem theme_persists:
  assumes "has_themeToggle pg" and "has_themeToggle pg'"
  shows "(let newTheme = (if or_light (data_theme pg) = js ''dark'' then js ''light'' else js ''dark'')
          in data_theme (bindEvents_theme pg ls)
               = Some (case getItem ls (js ''theme'') of
                         None \<Rightarrow> js ''light''
                       | Some t \<Rightarrow> if t = [] then js ''light'' else t)
             \<and> data_theme (fst (themeToggle_click pg ls)) = Some newTheme
             \<and> getItem (snd (themeToggle_click pg ls)) (js ''theme'') = Some newTheme
             \<and> data_theme (bindEvents_theme pg' (snd (themeToggle_click pg ls))) = Some newTheme)"
  using assms
  by (simp add: Let_def bindEvents_theme_def themeToggle_click_def getItem_def setItem_def
      new_theme_stored)
    (simp add: or_light_def)

text \<open>
  C8 on a first visit: start-up applies \<open>light\<close>, a click switches to \<open>dark\<close> and
  stores it, and a reload applies \<open>dark\<close>.
\<close>

theorem theme_persists_witness:
  "(let pg = \<lparr>has_themeToggle = True, data_theme = None, icon_className = Some (js ''fas fa-moon'')\<rparr>;
        started = bindEvents_theme pg Map.empty;
        clicked = themeToggle_click started Map.empty
    in data_theme started = Some (js ''light'')
       \<and> data_theme (fst clicked) = Some (js ''dark'')
       \<and> getItem (snd clicked) (js ''theme'') = Some (js ''dark'')
       \<and> data_theme (bindEvents_theme pg (snd clicked)) = Some (js ''dark'')
       \<and> data_theme (bindEvents_theme pg [js ''theme'' \<mapsto> js ''dark'']) = Some (js ''dark''))"
proof -
  let ?pg = "\<lparr>has_themeToggle = True, data_theme = None, icon_className = Some (js ''fas fa-moon'')\<rparr>"
  have h: "has_themeToggle ?pg"
    by simp
  have st: "bindEvents_theme ?pg Map.empty
      = \<lparr>has_themeToggle = True, data_theme = Some (js ''light''),
         icon_className = Some (js ''fas fa-moon'')\<rparr>"
    by (simp add: bindEvents_theme_def getItem_def or_light_def theme_icon_def js_def)
  have h': "has_themeToggle (bindEvents_theme ?pg Map.empty)"
    by (simp add: st)
  have ne: "js ''light'' \<noteq> js ''dark''" "js ''dark'' \<noteq> []"
    by (simp_all add: js_def)
  from theme_persists [OF h h, of Map.empty] theme_persists [OF h' h, of Map.empty]
    theme_persists [OF h h, of "[js ''theme'' \<mapsto> js ''dark'']"] ne
  show ?thesis
    unfolding Let_def st by (simp add: getItem_def or_light_def)
qed

end
